theory Spec2Isabelle
  imports Complex_Main "HOL-Library.Sublist"
begin

section \<open>The recommendation route of routes/ai.js\<close>

text \<open>
  The theory embeds the handler of \<^verbatim>\<open>POST /api/ai/recommendations\<close> (src/routes/ai.js).
  Conventions of the embedding:
  \<^item> A JavaScript string is a \<^typ>\<open>string\<close>. The text covered is ASCII; the rupee sign of the
    source is carried as its three UTF-8 bytes. \<^verbatim>\<open>toLowerCase\<close> maps the letters A-Z,
    \<^verbatim>\<open>\s\<close> and \<^verbatim>\<open>trim\<close> know the six ASCII white-space characters.
  \<^item> A price or a rating average is a \<^typ>\<open>rat\<close> and a rating count a \<^typ>\<open>nat\<close>: the value
    of the stored double. A budget bound is what \<^verbatim>\<open>parseInt\<close> returns: a non-negative
    integer that is a double, or \<^verbatim>\<open>Infinity\<close>.
  \<^item> An absent (undefined or null) field is \<open>None\<close>.
  \<^item> An exception is a value \<open>Inl e\<close>; the handler's \<^verbatim>\<open>try\<close> block is \<open>tryBody\<close>, its
    \<^verbatim>\<open>catch\<close> block is \<open>catchBody\<close>.
  \<^item> The two collaborators are inputs: what \<^verbatim>\<open>Food.find().sort().lean()\<close> returns
    (\<open>None\<close> when it throws) and what the call of the generation model followed by
    \<^verbatim>\<open>JSON.parse\<close> yields.
\<close>

subsection \<open>Strings\<close>

definition upperLetters :: string where
  "upperLetters = ''ABCDEFGHIJKLMNOPQRSTUVWXYZ''"

definition lowerLetters :: string where
  "lowerLetters = ''abcdefghijklmnopqrstuvwxyz''"

definition lowerChar :: "char \<Rightarrow> char" where
  "lowerChar c = (case map_of (zip upperLetters lowerLetters) c of Some d \<Rightarrow> d | None \<Rightarrow> c)"

definition toLowerCase :: "string \<Rightarrow> string" where
  "toLowerCase s = map lowerChar s"

definition isSpace :: "char \<Rightarrow> bool" where
  "isSpace c = (c \<in> set [CHR '' '', CHR 0x09, CHR 0x0A, CHR 0x0B, CHR 0x0C, CHR 0x0D])"

definition isDigit :: "char \<Rightarrow> bool" where
  "isDigit c = (c \<in> set ''0123456789'')"

definition trim :: "string \<Rightarrow> string" where
  "trim s = rev (dropWhile isSpace (rev (dropWhile isSpace s)))"

text \<open>\<^verbatim>\<open>s.includes(t)\<close>: \<open>t\<close> occurs in \<open>s\<close> as a contiguous substring.\<close>

fun includesStr :: "string \<Rightarrow> string \<Rightarrow> bool" where
  "includesStr [] t = (t = [])"
| "includesStr (c # s) t = (prefix t (c # s) \<or> includesStr s t)"

text \<open>\<^verbatim>\<open>s.split(' ')\<close>: the pieces between single spaces; the empty string gives one
  empty piece.\<close>

fun splitSpace :: "string \<Rightarrow> string list" where
  "splitSpace [] = [[]]"
| "splitSpace (c # s) =
     (if c = CHR '' '' then [] # splitSpace s
      else (case splitSpace s of [] \<Rightarrow> [[c]] | w # ws \<Rightarrow> (c # w) # ws))"

text \<open>Decimal rendering of a non-negative integer, as a template literal prints it.\<close>

fun showNat :: "nat \<Rightarrow> string" where
  "showNat n =
     (if n < 10 then [''0123456789'' ! n]
      else showNat (n div 10) @ [''0123456789'' ! (n mod 10)])"

declare showNat.simps [simp del]

text \<open>
  \<^verbatim>\<open>parseInt\<close> on the text of a \<^verbatim>\<open>(\d+)\<close> group (the source never applies it to anything
  else). The leading digits denote an integer, \<open>mathInt\<close>, and the result is that integer as
  a Number: an IEEE double. An integer of at most 53 bits is a double. Of a longer one the
  53 leading bits are kept and the rest is rounded to the nearest double, to the even one on
  a tie; from \<open>2^1024\<close> on the rounded value is \<^verbatim>\<open>Infinity\<close>. So every integer up to
  \<open>2^53\<close> is read exactly (lemma \<open>toDouble_exact\<close>). (Past the 20th significant digit the
  language lets an implementation read zeros; Node's engine reads every digit, as here.)
\<close>

datatype bound = Finite nat | Infinity

definition digitVal :: "char \<Rightarrow> nat" where
  "digitVal c = length (takeWhile (\<lambda>d. d \<noteq> c) ''0123456789'')"

definition decimal :: "string \<Rightarrow> nat" where
  "decimal ds = foldl (\<lambda>n c. 10 * n + digitVal c) 0 ds"

definition mathInt :: "string \<Rightarrow> nat" where
  "mathInt s = decimal (takeWhile isDigit s)"

text \<open>The number of binary digits of \<open>n\<close>.\<close>

fun bits :: "nat \<Rightarrow> nat" where
  "bits n = (if n = 0 then 0 else Suc (bits (n div 2)))"

declare bits.simps [simp del]

definition toDouble :: "nat \<Rightarrow> bound" where
  "toDouble n =
     (if bits n \<le> 53 then Finite n
      else
        let e = bits n - 53;
            q = n div 2 ^ e;
            r = n mod 2 ^ e;
            h = 2 ^ (e - 1);
            q' = (if r > h \<or> (r = h \<and> odd q) then q + 1 else q);
            v = q' * 2 ^ e
        in if bits v > 1024 then Infinity else Finite v)"

definition parseInt :: "string \<Rightarrow> bound" where
  "parseInt s = toDouble (mathInt s)"

text \<open>The comparisons of a price with a budget bound (\<^verbatim>\<open>price > budgetMax\<close>,
  \<^verbatim>\<open>price < budgetMin\<close>) and of a bound with a threshold (\<^verbatim>\<open>budgetMax < 500\<close>).\<close>

fun priceAbove :: "rat \<Rightarrow> bound \<Rightarrow> bool" where
  "priceAbove p (Finite n) = (p > of_nat n)"
| "priceAbove p Infinity = False"

fun priceBelow :: "rat \<Rightarrow> bound \<Rightarrow> bool" where
  "priceBelow p (Finite n) = (p < of_nat n)"
| "priceBelow p Infinity = True"

fun boundBelow :: "bound \<Rightarrow> nat \<Rightarrow> bool" where
  "boundBelow (Finite n) k = (n < k)"
| "boundBelow Infinity k = False"

text \<open>\<^verbatim>\<open>x.toFixed(1)\<close> for a number \<open>x > 0\<close>: the nearest multiple of one tenth, the larger
  one on a tie, printed with one decimal.\<close>

definition toFixed1 :: "rat \<Rightarrow> string" where
  "toFixed1 x = (let n = nat \<lfloor>x * 10 + 1 / 2\<rfloor> in showNat (n div 10) @ ''.'' @ showNat (n mod 10))"

text \<open>A template literal prints an absent value as \<^verbatim>\<open>undefined\<close>.\<close>

definition interp :: "string option \<Rightarrow> string" where
  "interp v = (case v of None \<Rightarrow> ''undefined'' | Some s \<Rightarrow> s)"

text \<open>\<^verbatim>\<open>(v || '')\<close> on an optional string.\<close>

definition orEmpty :: "string option \<Rightarrow> string" where
  "orEmpty v = (case v of None \<Rightarrow> [] | Some s \<Rightarrow> s)"

subsection \<open>Regular expressions\<close>

text \<open>
  The three budget patterns use literals, alternation, the optional \<^verbatim>\<open>?\<close>, the greedy
  \<^verbatim>\<open>\s*\<close> and \<^verbatim>\<open>\d+\<close>, and capturing groups. \<open>rmatch r s\<close> lists every way \<open>r\<close> matches a
  prefix of \<open>s\<close>, in the order a backtracking matcher tries them: the text consumed, the
  captures, the rest. \<open>jsMatch\<close> is \<^verbatim>\<open>String.prototype.match\<close> without the g flag: the first
  alternative at the leftmost start, returned as the array of the whole match followed by
  the groups.
\<close>

datatype cls = Space | Digit

datatype regex =
    Lit string
  | Star cls
  | Plus cls
  | Opt regex
  | Alt regex regex
  | Seq regex regex
  | Group regex

fun inCls :: "cls \<Rightarrow> char \<Rightarrow> bool" where
  "inCls Space c = isSpace c"
| "inCls Digit c = isDigit c"

definition greedy :: "nat \<Rightarrow> cls \<Rightarrow> string \<Rightarrow> (string \<times> string list \<times> string) list" where
  "greedy lo k s =
     map (\<lambda>n. (take n s, [], drop n s)) (rev [lo ..< Suc (length (takeWhile (inCls k) s))])"

fun rmatch :: "regex \<Rightarrow> string \<Rightarrow> (string \<times> string list \<times> string) list" where
  "rmatch (Lit l) s = (if prefix l s then [(l, [], drop (length l) s)] else [])"
| "rmatch (Star k) s = greedy 0 k s"
| "rmatch (Plus k) s = greedy 1 k s"
| "rmatch (Opt r) s = rmatch r s @ [([], [], s)]"
| "rmatch (Alt r1 r2) s = rmatch r1 s @ rmatch r2 s"
| "rmatch (Seq r1 r2) s =
     concat (map (\<lambda>(c1, g1, s1). map (\<lambda>(c2, g2, s2). (c1 @ c2, g1 @ g2, s2)) (rmatch r2 s1))
                 (rmatch r1 s))"
| "rmatch (Group r) s = map (\<lambda>(c, g, s'). (c, c # g, s')) (rmatch r s)"

fun jsMatch :: "regex \<Rightarrow> string \<Rightarrow> string list option" where
  "jsMatch r s =
     (case rmatch r s of
        (c, g, _) # _ \<Rightarrow> Some (c # g)
      | [] \<Rightarrow> (case s of [] \<Rightarrow> None | _ # s' \<Rightarrow> jsMatch r s'))"

definition rupee :: string where
  "rupee = [CHR 0xE2, CHR 0x82, CHR 0xB9]"

definition currency :: regex where
  "currency = Opt (Alt (Lit rupee) (Alt (Lit ''rs'') (Seq (Lit ''rupee'') (Opt (Lit ''s'')))))"

definition amount :: regex where
  "amount = Seq (Star Space) (Seq currency (Seq (Star Space) (Group (Plus Digit))))"

definition underRe :: regex where
  "underRe =
     Seq (Alt (Lit ''under'') (Alt (Lit ''below'') (Alt (Lit ''less than'')
            (Alt (Lit ''upto'') (Lit ''up to''))))) amount"

definition overRe :: regex where
  "overRe = Seq (Alt (Lit ''over'') (Alt (Lit ''above'') (Lit ''more than''))) amount"

definition rangeRe :: regex where
  "rangeRe =
     Seq (Group (Plus Digit)) (Seq (Star Space)
       (Seq (Alt (Lit ''-'') (Alt (Lit ''to'') (Lit ''and'')))
         (Seq (Star Space) (Group (Plus Digit)))))"

declare jsMatch.simps [simp del]

subsection \<open>Data model\<close>

text \<open>
  A catalog item as the route reads it. \<open>ident\<close> stands for the document's \<^verbatim>\<open>_id\<close> and
  for the fields no computation of the route reads (description, tags, nutrition, images).
\<close>

record dietary =
  vegetarian :: bool
  vegan :: bool
  glutenfree :: bool
  halal :: bool
  kosher :: bool

record rating =
  average :: rat
  count :: nat

record food =
  ident :: nat
  title :: string
  cuisineType :: "string option"
  vendorName :: "string option"
  city :: "string option"
  address :: "string option"
  price :: "rat option"
  priceRange :: "string option"
  dietary :: "dietary option"
  rating :: "rating option"

text \<open>A value produced by \<^verbatim>\<open>JSON.parse\<close>; an object keeps its members in textual order.\<close>

datatype json =
    JNull
  | JBool bool
  | JNum rat
  | JStr string
  | JArr "json list"
  | JObj "(string \<times> json) list"

text \<open>
  The outcome of lines 275-303: the model call throws (\<open>CallFailed\<close>), or it returns a text
  that \<^verbatim>\<open>JSON.parse\<close> rejects after the code fences are stripped (\<open>Unparseable\<close>), or the
  text parses to a value.
\<close>

datatype oracle_reply = CallFailed | Unparseable | Parsed json

text \<open>\<^verbatim>\<open>{...matchedFood, aiReason, matchScore, ratingDisplay}\<close>\<close>

record recommendation =
  item :: food
  aiReason :: json
  matchScore :: json
  ratingDisplay :: string

text \<open>What \<^verbatim>\<open>res.status(..).json(..)\<close> sends; \<open>recommendations\<close> is \<open>None\<close> where the body has no
  such member. (The \<^verbatim>\<open>error\<close> member of the last 500 response, present in development mode
  only, is left out.)\<close>

record response =
  status :: nat
  success :: bool
  message :: string
  recommendations :: "recommendation list option"
  noteText :: "string option"

datatype error = TypeError | OracleError | DbError

definition bindE :: "error + 'a \<Rightarrow> ('a \<Rightarrow> error + 'b) \<Rightarrow> error + 'b" where
  "bindE m k = (case m of Inl e \<Rightarrow> Inl e | Inr x \<Rightarrow> k x)"

subsection \<open>Constraint extraction (lines 63-136)\<close>

definition cityKeywords :: "string list" where
  "cityKeywords =
     [''mumbai'', ''delhi'', ''bangalore'', ''chennai'', ''kolkata'', ''hyderabad'', ''pune'',
      ''new york'', ''los angeles'', ''chicago'', ''london'', ''paris'', ''tokyo'', ''bombay'',
      ''calcutta'', ''rajpura'', ''patiala'', ''chandigarh'', ''amritsar'', ''ludhiana'',
      ''jalandhar'']"

definition mentionedCity :: "string \<Rightarrow> string option" where
  "mentionedCity promptLower = find (\<lambda>city. includesStr promptLower city) cityKeywords"

definition cuisineKeywords :: "string list" where
  "cuisineKeywords =
     [''italian'', ''indian'', ''chinese'', ''japanese'', ''thai'', ''mexican'', ''american'',
      ''mediterranean'', ''asian'', ''dessert'', ''vegetarian'', ''vegan'', ''korean'',
      ''french'', ''spanish'']"

definition mentionedCuisine :: "string \<Rightarrow> string option" where
  "mentionedCuisine promptLower = find (\<lambda>cuisine. includesStr promptLower cuisine) cuisineKeywords"

definition wantsVegetarian :: "string \<Rightarrow> bool" where
  "wantsVegetarian promptLower =
     (includesStr promptLower ''vegetarian'' \<and> \<not> includesStr promptLower ''non-vegetarian''
      \<and> \<not> includesStr promptLower ''non vegetarian'')"

definition wantsVegan :: "string \<Rightarrow> bool" where
  "wantsVegan promptLower = includesStr promptLower ''vegan''"

definition wantsGlutenFree :: "string \<Rightarrow> bool" where
  "wantsGlutenFree promptLower =
     (includesStr promptLower ''gluten-free'' \<or> includesStr promptLower ''gluten free'')"

definition wantsHalal :: "string \<Rightarrow> bool" where
  "wantsHalal promptLower = includesStr promptLower ''halal''"

definition underMatch :: "string \<Rightarrow> string list option" where
  "underMatch promptLower = jsMatch underRe promptLower"

definition overMatch :: "string \<Rightarrow> string list option" where
  "overMatch promptLower = jsMatch overRe promptLower"

definition rangeMatch :: "string \<Rightarrow> string list option" where
  "rangeMatch promptLower = jsMatch rangeRe promptLower"

record budget =
  budgetMax :: "bound option"
  budgetMin :: "bound option"

definition extractBudget :: "string \<Rightarrow> budget" where
  "extractBudget promptLower =
     (let b0 = \<lparr>budgetMax = None, budgetMin = None\<rparr>;
          b1 = (case underMatch promptLower of
                  Some m \<Rightarrow> b0\<lparr>budgetMax := Some (parseInt (m ! 1))\<rparr> | None \<Rightarrow> b0);
          b2 = (case overMatch promptLower of
                  Some m \<Rightarrow> b1\<lparr>budgetMin := Some (parseInt (m ! 1))\<rparr> | None \<Rightarrow> b1)
      in (case rangeMatch promptLower of
            Some m \<Rightarrow>
              if underMatch promptLower = None \<and> overMatch promptLower = None
              then b2\<lparr>budgetMin := Some (parseInt (m ! 1)), budgetMax := Some (parseInt (m ! 2))\<rparr>
              else b2
          | None \<Rightarrow> b2))"

definition hasBudget :: "budget \<Rightarrow> bool" where
  "hasBudget b = (budgetMax b \<noteq> None \<or> budgetMin b \<noteq> None)"

definition wasFiltered :: "string \<Rightarrow> bool" where
  "wasFiltered promptLower =
     (mentionedCity promptLower \<noteq> None \<or> mentionedCuisine promptLower \<noteq> None
      \<or> includesStr promptLower ''vegetarian'' \<or> includesStr promptLower ''vegan''
      \<or> includesStr promptLower ''gluten-free'' \<or> includesStr promptLower ''gluten free''
      \<or> includesStr promptLower ''halal''
      \<or> budgetMax (extractBudget promptLower) \<noteq> None
      \<or> budgetMin (extractBudget promptLower) \<noteq> None)"

subsection \<open>The catalog filter (lines 65-161)\<close>

definition cityFilter :: "string \<Rightarrow> food \<Rightarrow> bool" where
  "cityFilter mc f =
     (let foodCity = toLowerCase (orEmpty (city f));
          foodAddress = toLowerCase (orEmpty (address f))
      in includesStr foodCity mc \<or> includesStr foodAddress mc \<or> includesStr mc foodCity
         \<or> (foodCity \<noteq> [] \<and> list_ex (\<lambda>word. includesStr word mc) (splitSpace foodCity)))"

definition cuisineFilter :: "string \<Rightarrow> food \<Rightarrow> bool" where
  "cuisineFilter mc f =
     (let ct = toLowerCase (orEmpty (cuisineType f))
      in includesStr ct mc \<or> includesStr mc ct
         \<or> (ct \<noteq> [] \<and> list_ex (\<lambda>word. includesStr word mc) (splitSpace ct)))"

text \<open>\<^verbatim>\<open>food.dietary && food.dietary.flag\<close>\<close>

definition hasFlag :: "(dietary \<Rightarrow> bool) \<Rightarrow> food \<Rightarrow> bool" where
  "hasFlag flag f = (case dietary f of None \<Rightarrow> False | Some d \<Rightarrow> flag d)"

text \<open>The tier test of an item whose price is absent or zero (\<^verbatim>\<open>!food.price\<close>).\<close>

definition tierFilter :: "budget \<Rightarrow> food \<Rightarrow> bool" where
  "tierFilter b f =
     (case budgetMax b of
        None \<Rightarrow> True
      | Some mx \<Rightarrow>
          if boundBelow mx 500 then priceRange f = Some rupee
          else if boundBelow mx 1000 then
            priceRange f = Some rupee \<or> priceRange f = Some (rupee @ rupee)
          else if boundBelow mx 2000 then
            priceRange f = Some rupee \<or> priceRange f = Some (rupee @ rupee)
            \<or> priceRange f = Some (rupee @ rupee @ rupee)
          else True)"

definition budgetFilter :: "budget \<Rightarrow> food \<Rightarrow> bool" where
  "budgetFilter b f =
     (case price f of
        None \<Rightarrow> tierFilter b f
      | Some p \<Rightarrow>
          if p = 0 then tierFilter b f
          else if (case budgetMax b of None \<Rightarrow> False | Some mx \<Rightarrow> priceAbove p mx) then False
          else if (case budgetMin b of None \<Rightarrow> False | Some mn \<Rightarrow> priceBelow p mn) then False
          else True)"

definition filterFoods :: "string \<Rightarrow> food list \<Rightarrow> food list" where
  "filterFoods promptLower foods =
     (let f1 = (case mentionedCity promptLower of
                  Some mc \<Rightarrow> filter (cityFilter mc) foods | None \<Rightarrow> foods);
          f2 = (case mentionedCuisine promptLower of
                  Some mc \<Rightarrow> filter (cuisineFilter mc) f1 | None \<Rightarrow> f1);
          f3 = (if wantsVegetarian promptLower then filter (hasFlag vegetarian) f2 else f2);
          f4 = (if wantsVegan promptLower then filter (hasFlag vegan) f3 else f3);
          f5 = (if wantsGlutenFree promptLower then filter (hasFlag glutenfree) f4 else f4);
          f6 = (if wantsHalal promptLower then filter (hasFlag halal) f5 else f5);
          b = extractBudget promptLower
      in if hasBudget b then filter (budgetFilter b) f6 else f6)"

text \<open>The conjunction of the tests that \<open>filterFoods\<close> applies one after the other
  (lemma \<open>filterFoods_conv\<close> below).\<close>

definition filterAccepts :: "string \<Rightarrow> food \<Rightarrow> bool" where
  "filterAccepts promptLower f =
     ((case mentionedCity promptLower of None \<Rightarrow> True | Some mc \<Rightarrow> cityFilter mc f)
      \<and> (case mentionedCuisine promptLower of None \<Rightarrow> True | Some mc \<Rightarrow> cuisineFilter mc f)
      \<and> (wantsVegetarian promptLower \<longrightarrow> hasFlag vegetarian f)
      \<and> (wantsVegan promptLower \<longrightarrow> hasFlag vegan f)
      \<and> (wantsGlutenFree promptLower \<longrightarrow> hasFlag glutenfree f)
      \<and> (wantsHalal promptLower \<longrightarrow> hasFlag halal f)
      \<and> (hasBudget (extractBudget promptLower) \<longrightarrow> budgetFilter (extractBudget promptLower) f))"

subsection \<open>Capping and ranking (lines 186-209)\<close>

definition capFoods :: "string \<Rightarrow> food list \<Rightarrow> food list \<Rightarrow> food list" where
  "capFoods promptLower foods filteredFoods =
     (if wasFiltered promptLower \<and> length filteredFoods > 50 then take 50 filteredFoods
      else if \<not> wasFiltered promptLower then take 30 foods
      else filteredFoods)"

definition ratingAverage :: "food \<Rightarrow> rat" where
  "ratingAverage a = (case rating a of None \<Rightarrow> 0 | Some r \<Rightarrow> average r)"

definition ratingCount :: "food \<Rightarrow> nat" where
  "ratingCount a = (case rating a of None \<Rightarrow> 0 | Some r \<Rightarrow> count r)"

text \<open>The comparator handed to \<^verbatim>\<open>sort\<close> at lines 197, 432 and 462.\<close>

definition compareRating :: "food \<Rightarrow> food \<Rightarrow> rat" where
  "compareRating a b =
     (if ratingAverage b \<noteq> ratingAverage a then ratingAverage b - ratingAverage a
      else of_nat (ratingCount b) - of_nat (ratingCount a))"

text \<open>
  \<^verbatim>\<open>Array.prototype.sort\<close> is stable; with a comparator that is a total preorder its result
  is the one a stable insertion sort gives: \<open>x\<close> is put before the first element it does not
  have to follow.
\<close>

fun insertBy :: "('a \<Rightarrow> 'a \<Rightarrow> rat) \<Rightarrow> 'a \<Rightarrow> 'a list \<Rightarrow> 'a list" where
  "insertBy cmp x [] = [x]"
| "insertBy cmp x (y # ys) = (if cmp x y \<le> 0 then x # y # ys else y # insertBy cmp x ys)"

fun sortJs :: "('a \<Rightarrow> 'a \<Rightarrow> rat) \<Rightarrow> 'a list \<Rightarrow> 'a list" where
  "sortJs cmp [] = []"
| "sortJs cmp (x # xs) = insertBy cmp x (sortJs cmp xs)"

text \<open>The list called \<^verbatim>\<open>filteredFoods\<close> from line 211 on: what the model is shown and what its
  answer is reconciled against.\<close>

definition candidates :: "string \<Rightarrow> food list \<Rightarrow> food list" where
  "candidates promptLower foods =
     sortJs compareRating (capFoods promptLower foods (filterFoods promptLower foods))"

subsection \<open>Reconciliation (lines 305-342)\<close>

text \<open>\<^verbatim>\<open>rec.key\<close>: a TypeError on \<^verbatim>\<open>null\<close>; undefined on a number, a boolean, a string or
  an array (none has a member of the names read here); the last member of that name on an
  object.\<close>

definition getProp :: "json \<Rightarrow> string \<Rightarrow> error + json option" where
  "getProp v k =
     (case v of
        JNull \<Rightarrow> Inl TypeError
      | JObj kvs \<Rightarrow> Inr (map_of (rev kvs) k)
      | _ \<Rightarrow> Inr None)"

fun truthy :: "json \<Rightarrow> bool" where
  "truthy JNull = False"
| "truthy (JBool b) = b"
| "truthy (JNum n) = (n \<noteq> 0)"
| "truthy (JStr s) = (s \<noteq> [])"
| "truthy (JArr xs) = True"
| "truthy (JObj kvs) = True"

text \<open>\<^verbatim>\<open>v || d\<close> on a member that may be absent.\<close>

definition orElse :: "json option \<Rightarrow> json \<Rightarrow> json" where
  "orElse v d = (case v of None \<Rightarrow> d | Some x \<Rightarrow> if truthy x then x else d)"

text \<open>\<^verbatim>\<open>rec.title?.toLowerCase()\<close>: undefined when the title is undefined or null, a
  TypeError when it is neither that nor a string.\<close>

definition recTitleLower :: "json \<Rightarrow> error + string option" where
  "recTitleLower rec =
     bindE (getProp rec ''title'') (\<lambda>t.
       case t of
         None \<Rightarrow> Inr None
       | Some JNull \<Rightarrow> Inr None
       | Some (JStr s) \<Rightarrow> Inr (Some (toLowerCase s))
       | Some _ \<Rightarrow> Inl TypeError)"

definition exactTitle :: "json \<Rightarrow> food \<Rightarrow> error + bool" where
  "exactTitle rec f =
     bindE (recTitleLower rec) (\<lambda>t.
       case t of
         None \<Rightarrow> Inr False
       | Some s \<Rightarrow> Inr (trim (toLowerCase (title f)) = trim s))"

text \<open>\<^verbatim>\<open>includes(undefined)\<close> searches for the text \<^verbatim>\<open>undefined\<close>.\<close>

definition partialTitle :: "json \<Rightarrow> food \<Rightarrow> error + bool" where
  "partialTitle rec f =
     bindE (recTitleLower rec) (\<lambda>t.
       case t of
         None \<Rightarrow> Inr (includesStr (toLowerCase (title f)) ''undefined'')
       | Some s \<Rightarrow>
           Inr (includesStr (toLowerCase (title f)) s \<or> includesStr s (toLowerCase (title f))))"

definition vendorTest :: "json \<Rightarrow> food \<Rightarrow> error + bool" where
  "vendorTest rv f =
     (case vendorName f of
        None \<Rightarrow> Inr False
      | Some fv \<Rightarrow>
          if fv = [] then Inr False
          else (case rv of
                  JStr s \<Rightarrow>
                    Inr (trim (toLowerCase fv) = trim (toLowerCase s)
                         \<or> includesStr (toLowerCase fv) (toLowerCase s))
                | _ \<Rightarrow> Inl TypeError))"

text \<open>\<^verbatim>\<open>Array.prototype.find\<close> with a callback that may throw.\<close>

fun findE :: "('a \<Rightarrow> error + bool) \<Rightarrow> 'a list \<Rightarrow> error + 'a option" where
  "findE p [] = Inr None"
| "findE p (x # xs) =
     (case p x of
        Inl e \<Rightarrow> Inl e
      | Inr b \<Rightarrow> if b then Inr (Some x) else findE p xs)"

fun mapE :: "('a \<Rightarrow> error + 'b) \<Rightarrow> 'a list \<Rightarrow> error + 'b list" where
  "mapE f [] = Inr []"
| "mapE f (x # xs) = bindE (f x) (\<lambda>y. bindE (mapE f xs) (\<lambda>ys. Inr (y # ys)))"

definition displayRating :: "food \<Rightarrow> string" where
  "displayRating f =
     (let r = (case rating f of None \<Rightarrow> \<lparr>average = 0, count = 0\<rparr> | Some r \<Rightarrow> r)
      in if average r > 0
         then toFixed1 (average r) @ '' stars ('' @ showNat (count r) @ '' reviews)''
         else ''No ratings yet'')"

definition enrich :: "food \<Rightarrow> json \<Rightarrow> error + recommendation" where
  "enrich matchedFood rec =
     bindE (getProp rec ''reason'') (\<lambda>reason.
     bindE (getProp rec ''matchScore'') (\<lambda>score.
       Inr \<lparr>item = matchedFood,
            aiReason = orElse reason
              (JStr (''A highly-rated '' @ interp (cuisineType matchedFood)
                     @ '' option matching your preferences'')),
            matchScore = orElse score (JStr ''Medium''),
            ratingDisplay = displayRating matchedFood\<rparr>))"

definition matchOne :: "food list \<Rightarrow> json \<Rightarrow> error + recommendation option" where
  "matchOne filteredFoods rec =
     bindE (findE (exactTitle rec) filteredFoods) (\<lambda>m1.
     bindE (case m1 of
              Some f \<Rightarrow> Inr (Some f)
            | None \<Rightarrow> findE (partialTitle rec) filteredFoods) (\<lambda>m2.
     bindE (case m2 of
              Some f \<Rightarrow> Inr (Some f)
            | None \<Rightarrow>
                bindE (getProp rec ''vendorName'') (\<lambda>v.
                  case v of
                    None \<Rightarrow> Inr None
                  | Some rv \<Rightarrow> if truthy rv then findE (vendorTest rv) filteredFoods
                               else Inr None)) (\<lambda>m3.
       case m3 of
         None \<Rightarrow> Inr None
       | Some f \<Rightarrow> bindE (enrich f rec) (\<lambda>r. Inr (Some r)))))"

definition matchedFoods :: "food list \<Rightarrow> json list \<Rightarrow> error + recommendation list" where
  "matchedFoods filteredFoods recs =
     bindE (mapE (matchOne filteredFoods) recs) (\<lambda>ms. Inr (List.map_filter (\<lambda>m. m) ms))"

subsection \<open>Post-validation (lines 344-394)\<close>

definition validFood :: "string \<Rightarrow> food \<Rightarrow> bool" where
  "validFood promptLower f =
     (let b = extractBudget promptLower;
          foodCity = toLowerCase (orEmpty (city f));
          foodAddress = toLowerCase (orEmpty (address f));
          foodCuisine = toLowerCase (orEmpty (cuisineType f))
      in if (case mentionedCity promptLower of
               None \<Rightarrow> False
             | Some mc \<Rightarrow> \<not> includesStr foodCity mc \<and> \<not> includesStr foodAddress mc) then False
         else if (case mentionedCuisine promptLower of
                    None \<Rightarrow> False
                  | Some mc \<Rightarrow> \<not> includesStr foodCuisine mc) then False
         else if wantsVegetarian promptLower \<and> \<not> hasFlag vegetarian f then False
         else if wantsVegan promptLower \<and> \<not> hasFlag vegan f then False
         else if wantsGlutenFree promptLower \<and> \<not> hasFlag glutenfree f then False
         else if wantsHalal promptLower \<and> \<not> hasFlag halal f then False
         else if (case (budgetMax b, price f) of
                    (Some mx, Some p) \<Rightarrow> p \<noteq> 0 \<and> priceAbove p mx | _ \<Rightarrow> False) then False
         else if (case (budgetMin b, price f) of
                    (Some mn, Some p) \<Rightarrow> p \<noteq> 0 \<and> priceBelow p mn | _ \<Rightarrow> False) then False
         else True)"

definition validatedFoods :: "string \<Rightarrow> recommendation list \<Rightarrow> recommendation list" where
  "validatedFoods promptLower matched = filter (\<lambda>r. validFood promptLower (item r)) matched"

subsection \<open>The handler (lines 31-504)\<close>

definition failure :: "nat \<Rightarrow> string \<Rightarrow> recommendation list option \<Rightarrow> response" where
  "failure code msg recs =
     \<lparr>status = code, success = False, message = msg, recommendations = recs, noteText = None\<rparr>"

definition found :: "string \<Rightarrow> recommendation list \<Rightarrow> string option \<Rightarrow> response" where
  "found msg recs n =
     \<lparr>status = 200, success = True, message = msg, recommendations = Some recs, noteText = n\<rparr>"

text \<open>Step 3 of the fallback chain (lines 404-414).\<close>

definition topFiltered :: "food \<Rightarrow> recommendation" where
  "topFiltered f =
     \<lparr>item = f,
      aiReason = JStr (''This highly-rated '' @ interp (cuisineType f) @ '' dish from ''
                       @ interp (vendorName f) @ '' in '' @ interp (city f)
                       @ '' matches your request!''),
      matchScore = JStr ''Medium'',
      ratingDisplay = displayRating f\<rparr>"

text \<open>The catch block's recommendation (lines 477-487).\<close>

definition topRated :: "food \<Rightarrow> recommendation" where
  "topRated f =
     \<lparr>item = f,
      aiReason = JStr (''This highly-rated '' @ interp (cuisineType f) @ '' dish from ''
                       @ interp (vendorName f) @ '' in '' @ interp (city f)
                       @ '' is a great option!''),
      matchScore = JStr ''Medium'',
      ratingDisplay = displayRating f\<rparr>"

text \<open>The array the parsed answer is treated as (lines 286-303).\<close>

definition answerList :: "oracle_reply \<Rightarrow> json list" where
  "answerList reply = (case reply of Parsed (JArr xs) \<Rightarrow> xs | _ \<Rightarrow> [])"

text \<open>Lines 305-451, once the model has answered.\<close>

definition respond :: "string \<Rightarrow> food list \<Rightarrow> json list \<Rightarrow> error + response" where
  "respond promptLower filteredFoods recs =
     bindE (matchedFoods filteredFoods recs) (\<lambda>matched.
       let validated = validatedFoods promptLower matched;
           finalFoods = (if validated \<noteq> [] then validated else matched)
       in if finalFoods = [] then
            (if filteredFoods \<noteq> [] \<and> wasFiltered promptLower then
               let topFilteredFoods = map topFiltered (take 5 filteredFoods)
               in Inr (found (''Found '' @ showNat (length topFilteredFoods)
                              @ '' food items matching your request!'') topFilteredFoods None)
             else
               Inr (failure 404
                 ''No food items found matching your request. Please try a different prompt or check your criteria.''
                 (Some [])))
          else
            let finalRecommendations =
                  take 6 (sortJs (\<lambda>a b. compareRating (item a) (item b)) finalFoods)
            in Inr (found (''Found '' @ showNat (length finalRecommendations)
                           @ '' personalized recommendations for you!'')
                      finalRecommendations None))"

text \<open>The try block. \<open>configured\<close>: the API key is set and the client was created.\<close>

definition tryBody ::
  "bool \<Rightarrow> string \<Rightarrow> food list option \<Rightarrow> oracle_reply \<Rightarrow> error + response" where
  "tryBody configured prompt fetched reply =
     (if prompt = [] \<or> trim prompt = [] then
        Inr (failure 400 ''Please provide a prompt describing what you are looking for.'' None)
      else if \<not> configured then
        Inr (failure 500
          ''Gemini API key not configured. Please add GEMINI_API_KEY to your environment variables.''
          None)
      else
        (case fetched of
           None \<Rightarrow> Inl DbError
         | Some foods \<Rightarrow>
             if foods = [] then
               Inr (failure 404 ''No food items available in the database.'' None)
             else
               let promptLower = toLowerCase prompt
               in if filterFoods promptLower foods = [] \<and> wasFiltered promptLower then
                    Inr (failure 404
                      ''No food items found matching your specific criteria. Please try adjusting your request (e.g., different location, cuisine, or budget).''
                      (Some []))
                  else
                    (case reply of
                       CallFailed \<Rightarrow> Inl OracleError
                     | _ \<Rightarrow> respond promptLower (candidates promptLower foods)
                             (answerList reply))))"

text \<open>The catch block, with its own read of the catalog.\<close>

definition catchBody :: "food list option \<Rightarrow> response" where
  "catchBody refetched =
     (case refetched of
        None \<Rightarrow> failure 500 ''Error generating recommendations. Please try again later.'' None
      | Some foods \<Rightarrow>
          let topFoods = take 6 (sortJs compareRating foods);
              fallbackRecommendations = map topRated topFoods
          in found (''Found '' @ showNat (length fallbackRecommendations)
                    @ '' highly-rated food items!'')
               fallbackRecommendations
               (Some ''AI service temporarily unavailable, showing top-rated results.''))"

definition getRecommendations ::
  "bool \<Rightarrow> string \<Rightarrow> food list option \<Rightarrow> oracle_reply \<Rightarrow> food list option \<Rightarrow> response" where
  "getRecommendations configured prompt fetched reply refetched =
     (case tryBody configured prompt fetched reply of
        Inr r \<Rightarrow> r
      | Inl e \<Rightarrow> catchBody refetched)"

text \<open>The items of a response; a body without the member has none.\<close>

definition items :: "response \<Rightarrow> recommendation list" where
  "items r = (case recommendations r of None \<Rightarrow> [] | Some rs \<Rightarrow> rs)"

subsection \<open>Answer entries that raise nothing\<close>

text \<open>
  An entry of the model's answer is read without a TypeError when it is not \<^verbatim>\<open>null\<close>, its
  title is a string, null or absent, and its vendor name is a string, falsy or absent.
\<close>

fun stringOrNull :: "json \<Rightarrow> bool" where
  "stringOrNull JNull = True"
| "stringOrNull (JStr s) = True"
| "stringOrNull v = False"

definition benignEntry :: "json \<Rightarrow> bool" where
  "benignEntry rec =
     (rec \<noteq> JNull
      \<and> (case getProp rec ''title'' of Inr (Some v) \<Rightarrow> stringOrNull v | _ \<Rightarrow> True)
      \<and> (case getProp rec ''vendorName'' of
            Inr (Some v) \<Rightarrow> \<not> truthy v \<or> stringOrNull v | _ \<Rightarrow> True))"

subsection \<open>Sample data\<close>

text \<open>Concrete catalog items on which the theorems below are instantiated.\<close>

definition sampleFood :: "nat \<Rightarrow> food" where
  "sampleFood i =
     \<lparr>ident = i, title = ''Dish '' @ showNat i, cuisineType = Some ''Indian'',
      vendorName = Some ''Vendor'', city = Some ''Pune'', address = Some ''MG Road'',
      price = Some 120, priceRange = Some rupee,
      dietary = Some \<lparr>vegetarian = True, vegan = False, glutenfree = False, halal = False,
                      kosher = False\<rparr>,
      rating = Some \<lparr>average = of_nat (i mod 5), count = i\<rparr>\<rparr>"

definition titled :: "string \<Rightarrow> json" where
  "titled t = JObj [(''title'', JStr t)]"

definition ratedFood :: "nat \<Rightarrow> rat \<Rightarrow> nat \<Rightarrow> food" where
  "ratedFood i a c = (sampleFood i)\<lparr>rating := Some \<lparr>average = a, count = c\<rparr>\<rparr>"

definition cheapFood :: food where
  "cheapFood = (sampleFood 2)\<lparr>price := Some 80\<rparr>"

text \<open>An item sold as vegetarian cuisine whose dietary flags are not set.\<close>

definition vegCuisineMeat :: food where
  "vegCuisineMeat = (sampleFood 1)\<lparr>cuisineType := Some ''Vegetarian Thali'', dietary := None\<rparr>"

text \<open>An item in York, an item without a price in the highest tier, and a recommendation
  wrapped around an item.\<close>

definition yorkFood :: food where
  "yorkFood = (sampleFood 3)\<lparr>city := Some ''York'', address := Some ''1 High Street''\<rparr>"

definition unpricedFood :: food where
  "unpricedFood = (sampleFood 4)\<lparr>price := None, priceRange := Some (rupee @ rupee @ rupee @ rupee)\<rparr>"

definition plain :: "food \<Rightarrow> recommendation" where
  "plain f = \<lparr>item = f, aiReason = JStr ''ok'', matchScore = JStr ''High'', ratingDisplay = displayRating f\<rparr>"

text \<open>Scenario A of the specification: the prompt, a vegan item in Pune at 250, a non-vegan
  item in Pune at 200; and the vegan item listed under Indian cuisine.\<close>

definition scenarioPrompt :: string where
  "scenarioPrompt = ''vegan food under 300 in Pune''"

definition veganItem :: food where
  "veganItem =
     \<lparr>ident = 1, title = ''Tofu Bowl'', cuisineType = Some ''Vegan'',
      vendorName = Some ''Green Leaf'', city = Some ''Pune'', address = Some ''MG Road'',
      price = Some 250, priceRange = Some rupee,
      dietary = Some \<lparr>vegetarian = True, vegan = True, glutenfree = False, halal = False,
                      kosher = False\<rparr>,
      rating = Some \<lparr>average = 9 / 2, count = 12\<rparr>\<rparr>"

definition meatItem :: food where
  "meatItem =
     \<lparr>ident = 2, title = ''Chicken Roll'', cuisineType = Some ''Indian'',
      vendorName = Some ''Roll House'', city = Some ''Pune'', address = Some ''FC Road'',
      price = Some 200, priceRange = Some rupee,
      dietary = Some \<lparr>vegetarian = False, vegan = False, glutenfree = False, halal = True,
                      kosher = False\<rparr>,
      rating = None\<rparr>"

definition veganIndian :: food where
  "veganIndian = veganItem\<lparr>cuisineType := Some ''Indian''\<rparr>"

subsection \<open>The ranking order\<close>

text \<open>The pair (rating average, rating count) of \<open>a\<close> is lexicographically below that of
  \<open>b\<close>; an absent rating counts as (0, 0).\<close>

definition strictlyLower :: "food \<Rightarrow> food \<Rightarrow> bool" where
  "strictlyLower a b =
     (ratingAverage a < ratingAverage b
      \<or> (ratingAverage a = ratingAverage b \<and> ratingCount a < ratingCount b))"

section \<open>Properties\<close>

subsection \<open>Sorting\<close>

lemma set_insertBy: "set (insertBy cmp x ys) = insert x (set ys)"
  by (induction ys) auto

lemma set_sortJs: "set (sortJs cmp xs) = set xs"
  by (induction xs) (auto simp: set_insertBy)

lemma length_insertBy: "length (insertBy cmp x ys) = Suc (length ys)"
  by (induction ys) auto

lemma length_sortJs: "length (sortJs cmp xs) = length xs"
  by (induction xs) (auto simp: length_insertBy)

lemma sorted_insertBy:
  assumes total: "\<And>a b. cmp a b \<le> 0 \<or> cmp b a \<le> 0"
    and trans: "\<And>a b c. cmp a b \<le> 0 \<Longrightarrow> cmp b c \<le> 0 \<Longrightarrow> cmp a c \<le> 0"
    and "sorted_wrt (\<lambda>a b. cmp a b \<le> 0) ys"
  shows "sorted_wrt (\<lambda>a b. cmp a b \<le> 0) (insertBy cmp x ys)"
  using assms(3)
proof (induction ys)
  case Nil
  then show ?case by simp
next
  case (Cons y ys)
  show ?case
  proof (cases "cmp x y \<le> 0")
    case True
    then have "\<forall>z\<in>set ys. cmp x z \<le> 0"
      using Cons.prems trans by auto
    with True Cons.prems show ?thesis by simp
  next
    case False
    then have "cmp y x \<le> 0" using total by blast
    with False Cons show ?thesis by (auto simp: set_insertBy)
  qed
qed

lemma sorted_sortJs:
  assumes total: "\<And>a b. cmp a b \<le> 0 \<or> cmp b a \<le> 0"
    and trans: "\<And>a b c. cmp a b \<le> 0 \<Longrightarrow> cmp b c \<le> 0 \<Longrightarrow> cmp a c \<le> 0"
  shows "sorted_wrt (\<lambda>a b. cmp a b \<le> 0) (sortJs cmp xs)"
  by (induction xs) (simp_all add: sorted_insertBy [OF total trans])

subsection \<open>Ranking, reconciliation and the shape of a response\<close>

lemma compareRating_le: "compareRating a b \<le> 0 \<longleftrightarrow> \<not> strictlyLower a b"
  by (auto simp: compareRating_def strictlyLower_def)

lemma compareRating_total: "compareRating a b \<le> 0 \<or> compareRating b a \<le> 0"
  by (auto simp: compareRating_le strictlyLower_def)

lemma compareRating_trans:
  "compareRating a b \<le> 0 \<Longrightarrow> compareRating b c \<le> 0 \<Longrightarrow> compareRating a c \<le> 0"
  by (auto simp: compareRating_le strictlyLower_def)

lemma sorted_candidates:
  "sorted_wrt (\<lambda>a b. compareRating a b \<le> 0) (candidates promptLower foods)"
  unfolding candidates_def
  by (rule sorted_sortJs [OF compareRating_total compareRating_trans])

lemma sorted_final:
  "sorted_wrt (\<lambda>a b. compareRating (item a) (item b) \<le> 0)
     (sortJs (\<lambda>a b. compareRating (item a) (item b)) rs)"
  by (rule sorted_sortJs [where cmp = "\<lambda>a b. compareRating (item a) (item b)"])
     (rule compareRating_total, erule compareRating_trans, assumption)

lemma sorted_wrt_take: "sorted_wrt P xs \<Longrightarrow> sorted_wrt P (take n xs)"
  by (induction xs arbitrary: n) (auto simp: take_Cons' dest: in_set_takeD)

lemma findE_Some: "findE p xs = Inr (Some x) \<Longrightarrow> x \<in> set xs"
  by (induction xs) (auto split: sum.splits if_splits)

lemma enrich_Inr:
  "enrich f rec = Inr r \<Longrightarrow> item r = f \<and> ratingDisplay r = displayRating f"
  by (auto simp: enrich_def bindE_def split: sum.splits)

lemma matchOne_Some:
  assumes "matchOne cands rec = Inr (Some r)"
  shows "item r \<in> set cands \<and> ratingDisplay r = displayRating (item r)"
  using assms
  by (auto simp: matchOne_def bindE_def split: sum.splits option.splits if_splits
      dest!: findE_Some enrich_Inr)

lemma mapE_Inr:
  "mapE f xs = Inr ys \<Longrightarrow> list_all2 (\<lambda>x y. f x = Inr y) xs ys"
  by (induction xs arbitrary: ys) (auto simp: bindE_def split: sum.splits)

lemma matchedFoods_Inr:
  assumes "matchedFoods cands recs = Inr ms" and "r \<in> set ms"
  shows "item r \<in> set cands \<and> ratingDisplay r = displayRating (item r)"
proof -
  from assms(1) obtain os where os: "mapE (matchOne cands) recs = Inr os"
    and ms: "ms = List.map_filter (\<lambda>m. m) os"
    by (auto simp: matchedFoods_def bindE_def split: sum.splits)
  from assms(2) ms have "Some r \<in> set os"
    by (auto simp: List.map_filter_def)
  with mapE_Inr [OF os] obtain rec where "matchOne cands rec = Inr (Some r)"
    by (auto simp: list_all2_conv_all_nth in_set_conv_nth)
  then show ?thesis by (rule matchOne_Some)
qed


lemma items_found [simp]: "items (found msg rs n) = rs"
  by (simp add: items_def found_def)

lemma items_failure [simp]:
  "items (failure code msg rs) = (case rs of None \<Rightarrow> [] | Some xs \<Rightarrow> xs)"
  by (simp add: items_def failure_def)

lemma respond_cases:
  assumes "respond promptLower cands recs = Inr resp"
  obtains matched where "matchedFoods cands recs = Inr matched"
    and "items resp = []
         \<or> (matched = [] \<and> items resp = map topFiltered (take 5 cands))
         \<or> (matched \<noteq> [] \<and> (\<exists>final. set final \<subseteq> set matched
               \<and> items resp = take 6 (sortJs (\<lambda>a b. compareRating (item a) (item b)) final)))"
proof -
  from assms obtain matched where m: "matchedFoods cands recs = Inr matched"
    by (auto simp: respond_def bindE_def split: sum.splits)
  define final where
    "final = (if validatedFoods promptLower matched \<noteq> [] then validatedFoods promptLower matched
              else matched)"
  have sub: "set final \<subseteq> set matched"
    by (auto simp: final_def validatedFoods_def)
  show thesis
  proof (cases "final = []")
    case True
    then have "matched = []"
      by (auto simp: final_def split: if_splits)
    moreover from assms m True
    have "items resp = [] \<or> items resp = map topFiltered (take 5 cands)"
      by (auto simp: respond_def bindE_def Let_def final_def split: if_splits)
    ultimately show ?thesis using m that by blast
  next
    case False
    then have ne: "matched \<noteq> []"
      by (auto simp: final_def validatedFoods_def split: if_splits)
    from assms m False
    have "items resp = take 6 (sortJs (\<lambda>a b. compareRating (item a) (item b)) final)"
      by (auto simp: respond_def bindE_def Let_def final_def split: if_splits)
    with sub ne m that show ?thesis by blast
  qed
qed

lemma respond_items:
  assumes "respond promptLower cands recs = Inr resp" and "x \<in> set (items resp)"
  shows "item x \<in> set cands \<and> ratingDisplay x = displayRating (item x)"
proof -
  from assms(1) obtain matched where m: "matchedFoods cands recs = Inr matched"
    and c: "items resp = []
         \<or> (matched = [] \<and> items resp = map topFiltered (take 5 cands))
         \<or> (matched \<noteq> [] \<and> (\<exists>final. set final \<subseteq> set matched
               \<and> items resp = take 6 (sortJs (\<lambda>a b. compareRating (item a) (item b)) final)))"
    by (rule respond_cases)
  from c assms(2) consider
      (top) "x \<in> set (map topFiltered (take 5 cands))"
    | (fin) final where "set final \<subseteq> set matched"
        "x \<in> set (take 6 (sortJs (\<lambda>a b. compareRating (item a) (item b)) final))"
    by auto
  then show ?thesis
  proof cases
    case top
    then show ?thesis by (auto simp: topFiltered_def dest: in_set_takeD)
  next
    case fin
    then have "x \<in> set matched"
      by (auto simp: set_sortJs dest!: in_set_takeD)
    with m show ?thesis by (rule matchedFoods_Inr)
  qed
qed

lemma respond_sorted:
  assumes "respond promptLower cands recs = Inr resp"
    and "sorted_wrt (\<lambda>a b. compareRating a b \<le> 0) cands"
  shows "sorted_wrt (\<lambda>a b. compareRating (item a) (item b) \<le> 0) (items resp)"
proof -
  from assms(1) obtain matched where
    c: "items resp = []
         \<or> (matched = [] \<and> items resp = map topFiltered (take 5 cands))
         \<or> (matched \<noteq> [] \<and> (\<exists>final. set final \<subseteq> set matched
               \<and> items resp = take 6 (sortJs (\<lambda>a b. compareRating (item a) (item b)) final)))"
    by (rule respond_cases)
  have "sorted_wrt (\<lambda>a b. compareRating (item a) (item b) \<le> 0) (map topFiltered (take 5 cands))"
    using sorted_wrt_take [OF assms(2), of 5]
    by (simp add: sorted_wrt_map topFiltered_def)
  moreover have "sorted_wrt (\<lambda>a b. compareRating (item a) (item b) \<le> 0)
      (take 6 (sortJs (\<lambda>a b. compareRating (item a) (item b)) final))" for final :: "recommendation list"
    by (rule sorted_wrt_take, rule sorted_final)
  ultimately show ?thesis using c by auto
qed

lemma tryBody_cases:
  assumes "tryBody configured prompt fetched reply = Inr resp"
  obtains "items resp = []"
  | foods where "fetched = Some foods" "foods \<noteq> []" "trim prompt \<noteq> []" "configured"
      "respond (toLowerCase prompt) (candidates (toLowerCase prompt) foods) (answerList reply)
         = Inr resp"
  using assms
  by (auto simp: tryBody_def Let_def split: if_splits option.splits oracle_reply.splits)

lemma catchBody_items:
  "items (catchBody refetched)
     = (case refetched of None \<Rightarrow> []
        | Some foods \<Rightarrow> map topRated (take 6 (sortJs compareRating foods)))"
  by (simp add: catchBody_def Let_def split: option.splits)

lemma catchBody_sorted:
  "sorted_wrt (\<lambda>a b. compareRating (item a) (item b) \<le> 0) (items (catchBody refetched))"
proof (cases refetched)
  case None
  then show ?thesis by (simp add: catchBody_items)
next
  case (Some foods)
  have "sorted_wrt (\<lambda>a b. compareRating a b \<le> 0) (take 6 (sortJs compareRating foods))"
    by (rule sorted_wrt_take, rule sorted_sortJs [OF compareRating_total compareRating_trans])
  with Some show ?thesis
    by (simp add: catchBody_items sorted_wrt_map topRated_def)
qed

lemma displayRating_eq:
  "displayRating f =
     (case rating f of
        None \<Rightarrow> ''No ratings yet''
      | Some r \<Rightarrow>
          if average r > 0
          then toFixed1 (average r) @ '' stars ('' @ showNat (count r) @ '' reviews)''
          else ''No ratings yet'')"
  by (simp add: displayRating_def Let_def split: option.splits)

subsection \<open>The filter as one predicate; substrings\<close>

lemma if_filter: "(if c then filter P xs else xs) = filter (\<lambda>x. c \<longrightarrow> P x) xs"
  by simp

lemma case_filter:
  "(case m of None \<Rightarrow> xs | Some mc \<Rightarrow> filter (F mc) xs)
     = filter (\<lambda>x. case m of None \<Rightarrow> True | Some mc \<Rightarrow> F mc x) xs"
  by (cases m) simp_all

lemma filterFoods_conv: "filterFoods promptLower foods = filter (filterAccepts promptLower) foods"
proof -
  have "filterFoods promptLower foods
      = filter (\<lambda>f. hasBudget (extractBudget promptLower) \<longrightarrow> budgetFilter (extractBudget promptLower) f)
         (filter (\<lambda>f. wantsHalal promptLower \<longrightarrow> hasFlag halal f)
           (filter (\<lambda>f. wantsGlutenFree promptLower \<longrightarrow> hasFlag glutenfree f)
             (filter (\<lambda>f. wantsVegan promptLower \<longrightarrow> hasFlag vegan f)
               (filter (\<lambda>f. wantsVegetarian promptLower \<longrightarrow> hasFlag vegetarian f)
                 (filter (\<lambda>f. case mentionedCuisine promptLower of None \<Rightarrow> True
                                | Some mc \<Rightarrow> cuisineFilter mc f)
                   (filter (\<lambda>f. case mentionedCity promptLower of None \<Rightarrow> True
                                  | Some mc \<Rightarrow> cityFilter mc f) foods))))))"
    unfolding filterFoods_def Let_def if_filter case_filter ..
  also have "\<dots> = filter (filterAccepts promptLower) foods"
    unfolding filter_filter filterAccepts_def
    by (rule filter_cong [OF refl]) blast
  finally show ?thesis .
qed
lemma filterFoods_single: "filterFoods promptLower [f] = [f] \<longleftrightarrow> filterAccepts promptLower f"
  by (simp add: filterFoods_conv)

lemma candidates_subset:
  "wasFiltered promptLower \<Longrightarrow> set (candidates promptLower foods) \<subseteq> set (filterFoods promptLower foods)"
  by (auto simp: candidates_def capFoods_def set_sortJs dest: in_set_takeD)

lemma includesStr_sublist: "includesStr s t \<longleftrightarrow> sublist t s"
  by (induction s) (auto simp: sublist_Cons_right)

lemma includes_non_vegetarian:
  "includesStr s ''non-vegetarian'' \<Longrightarrow> includesStr s ''vegetarian''"
proof -
  assume "includesStr s ''non-vegetarian''"
  then have "sublist (''non-'' @ ''vegetarian'') s"
    by (simp add: includesStr_sublist)
  then have "sublist ''vegetarian'' s"
    unfolding sublist_def by (metis append.assoc)
  then show ?thesis
    by (simp add: includesStr_sublist)
qed

lemma find_first:
  "w \<in> set ks \<Longrightarrow> P w \<Longrightarrow> \<forall>k\<in>set (takeWhile (\<lambda>k. k \<noteq> w) ks). \<not> P k \<Longrightarrow> find P ks = Some w"
  by (induction ks) auto

subsection \<open>Blank prompts carry no constraint\<close>

lemma isSpace_cases: "isSpace c \<longleftrightarrow> c = CHR '' '' \<or> c = CHR 0x09 \<or> c = CHR 0x0A \<or> c = CHR 0x0B \<or> c = CHR 0x0C \<or> c = CHR 0x0D"
  unfolding isSpace_def by (simp only: list.set insert_iff empty_iff simp_thms)

lemma isSpace_lowerChar: "isSpace c \<Longrightarrow> lowerChar c = c"
proof -
  assume "isSpace c"
  then have "c \<notin> set upperLetters"
    unfolding isSpace_cases upperLetters_def by auto
  then have "map_of (zip upperLetters lowerLetters) c = None"
    by (simp add: map_of_eq_None_iff upperLetters_def lowerLetters_def)
  then show ?thesis
    by (simp add: lowerChar_def)
qed

lemma trim_Nil_iff: "trim s = [] \<longleftrightarrow> (\<forall>c\<in>set s. isSpace c)"
proof
  assume "trim s = []"
  then have a: "\<forall>c\<in>set (dropWhile isSpace s). isSpace c"
    by (simp add: trim_def)
  have "dropWhile isSpace s = []"
  proof (rule ccontr)
    assume "dropWhile isSpace s \<noteq> []"
    then have "\<not> isSpace (hd (dropWhile isSpace s))" "hd (dropWhile isSpace s) \<in> set (dropWhile isSpace s)"
      by (simp_all add: hd_dropWhile)
    with a show False by blast
  qed
  then show "\<forall>c\<in>set s. isSpace c"
    by simp
next
  assume "\<forall>c\<in>set s. isSpace c"
  then have "\<forall>c\<in>set (dropWhile isSpace s). isSpace c"
    using set_dropWhileD by fast
  then show "trim s = []"
    by (simp add: trim_def)
qed

lemma includesStr_subset: "includesStr s t \<Longrightarrow> set t \<subseteq> set s"
proof (induction s)
  case Nil
  then show ?case by simp
next
  case (Cons c s)
  from Cons.prems consider "prefix t (c # s)" | "includesStr s t"
    by auto
  then show ?case
  proof cases
    case 1
    then show ?thesis by (rule set_mono_prefix)
  next
    case 2
    with Cons.IH show ?thesis by auto
  qed
qed

lemma blank_not_includes:
  assumes "\<forall>c\<in>set s. isSpace c" and "\<not> isSpace x"
  shows "\<not> includesStr s (x # t)"
  using assms includesStr_subset [of s "x # t"] by auto

lemma blank_no_prefix:
  assumes "\<forall>c\<in>set s. isSpace c" and "\<not> isSpace x"
  shows "prefix (x # l) s = False"
  using assms by (cases s) auto

lemma space_not_digit: "isSpace c \<Longrightarrow> \<not> isDigit c"
  unfolding isSpace_def isDigit_def by auto
lemma blank_no_digits:
  assumes "\<forall>c\<in>set s. isSpace c"
  shows "takeWhile isDigit s = []"
  using assms by (cases s) (auto simp: space_not_digit)

lemma blank_toLowerCase: "\<forall>c\<in>set s. isSpace c \<Longrightarrow> \<forall>c\<in>set (toLowerCase s). isSpace c"
  by (auto simp: toLowerCase_def isSpace_lowerChar)

lemma blank_rmatch:
  assumes "\<forall>c\<in>set s. isSpace c"
  shows "rmatch underRe s = []" and "rmatch overRe s = []"
proof -
  have p: "prefix (x # l) s = False" if "\<not> isSpace x" for x l
    using assms that by (rule blank_no_prefix)
  have u: "\<not> isSpace CHR ''u''" "\<not> isSpace CHR ''b''" "\<not> isSpace CHR ''l''"
    "\<not> isSpace CHR ''o''" "\<not> isSpace CHR ''a''" "\<not> isSpace CHR ''m''"
    by (simp_all add: isSpace_def)
  show "rmatch underRe s = []"
    by (simp add: underRe_def p u)
  show "rmatch overRe s = []"
    by (simp add: overRe_def p u)
qed

lemma inCls_Digit: "inCls Digit = isDigit"
  by (rule ext) simp
lemma blank_rmatch_range:
  assumes "\<forall>c\<in>set s. isSpace c"
  shows "rmatch rangeRe s = []"
  by (simp add: rangeRe_def greedy_def inCls_Digit blank_no_digits [OF assms])

lemma blank_jsMatch:
  assumes "\<forall>c\<in>set s. isSpace c"
  shows "jsMatch underRe s = None \<and> jsMatch overRe s = None \<and> jsMatch rangeRe s = None"
  using assms
proof (induction s)
  case Nil
  then show ?case
    by (simp add: jsMatch.simps [of _ "[]"] blank_rmatch blank_rmatch_range)
next
  case (Cons c s)
  then show ?case
    by (simp add: jsMatch.simps [of _ "c # s"] blank_rmatch blank_rmatch_range)
qed

lemma find_keyword_blank:
  assumes "\<forall>c\<in>set s. isSpace c" and "\<forall>k\<in>set ks. k \<noteq> [] \<and> \<not> isSpace (hd k)"
  shows "find (\<lambda>k. includesStr s k) ks = None"
proof -
  have "\<not> includesStr s k" if "k \<in> set ks" for k
  proof -
    from that assms(2) have k: "k \<noteq> []" "\<not> isSpace (hd k)"
      by blast+
    show ?thesis
    proof (cases k)
      case Nil
      with k(1) show ?thesis by simp
    next
      case (Cons x t)
      with k(2) have "\<not> isSpace x" by simp
      from blank_not_includes [OF assms(1) this, of t] Cons show ?thesis by simp
    qed
  qed
  then show ?thesis by (simp add: find_None_iff)
qed

lemma blank_not_filtered:
  assumes "trim prompt = []"
  shows "\<not> wasFiltered (toLowerCase prompt)"
proof -
  from assms have b: "\<forall>c\<in>set (toLowerCase prompt). isSpace c"
    by (simp add: trim_Nil_iff blank_toLowerCase)
  have "mentionedCity (toLowerCase prompt) = None"
    unfolding mentionedCity_def
    by (rule find_keyword_blank [OF b]) (simp add: cityKeywords_def isSpace_def)
  moreover have "mentionedCuisine (toLowerCase prompt) = None"
    unfolding mentionedCuisine_def
    by (rule find_keyword_blank [OF b]) (simp add: cuisineKeywords_def isSpace_def)
  moreover have "extractBudget (toLowerCase prompt) = \<lparr>budgetMax = None, budgetMin = None\<rparr>"
    using blank_jsMatch [OF b]
    by (simp add: extractBudget_def underMatch_def overMatch_def rangeMatch_def)
  moreover have n: "\<not> includesStr (toLowerCase prompt) (x # t)" if "\<not> isSpace x" for x t
    using b that by (rule blank_not_includes)
  have "\<not> includesStr (toLowerCase prompt) ''vegetarian''"
    "\<not> includesStr (toLowerCase prompt) ''vegan''"
    "\<not> includesStr (toLowerCase prompt) ''gluten-free''"
    "\<not> includesStr (toLowerCase prompt) ''gluten free''"
    "\<not> includesStr (toLowerCase prompt) ''halal''"
    by (rule n, simp add: isSpace_def)+
  ultimately show ?thesis
    by (simp add: wasFiltered_def)
qed

subsection \<open>Decimal numerals and the first match of a pattern\<close>

lemma digitChar_isDigit: "n < 10 \<Longrightarrow> isDigit (''0123456789'' ! n)"
proof -
  assume "n < 10"
  then have "''0123456789'' ! n \<in> set ''0123456789''"
    by (intro nth_mem) simp
  then show ?thesis
    by (simp only: isDigit_def)
qed

lemma showNat_digits: "showNat n \<noteq> [] \<and> (\<forall>c\<in>set (showNat n). isDigit c)"
proof (induction n rule: showNat.induct)
  case (1 n)
  show ?case
  proof (cases "n < 10")
    case True
    then show ?thesis
      using digitChar_isDigit [of n] by (simp add: showNat.simps [of n])
  next
    case False
    with 1 have "\<forall>c\<in>set (showNat (n div 10)). isDigit c"
      by simp
    moreover have "isDigit (''0123456789'' ! (n mod 10))"
      by (rule digitChar_isDigit) simp
    ultimately show ?thesis
      using False by (simp add: showNat.simps [of n])
  qed
qed

lemma digitVal_digitChar: "n < 10 \<Longrightarrow> digitVal (''0123456789'' ! n) = n"
proof -
  assume "n < 10"
  then have "n \<in> set [0 ..< 10]"
    by simp
  moreover have "list_all (\<lambda>n. digitVal (''0123456789'' ! n) = n) [0 ..< 10]"
    by code_simp
  ultimately show ?thesis
    by (simp only: list_all_iff)
qed

lemma decimal_snoc: "decimal (ds @ [d]) = 10 * decimal ds + digitVal d"
  by (simp add: decimal_def)

lemma decimal_showNat: "decimal (showNat n) = n"
proof (induction n rule: showNat.induct)
  case (1 n)
  show ?case
  proof (cases "n < 10")
    case True
    then show ?thesis
      by (simp add: showNat.simps [of n] decimal_def digitVal_digitChar)
  next
    case False
    have m: "n mod 10 < 10" by simp
    from False have "showNat n = showNat (n div 10) @ [''0123456789'' ! (n mod 10)]"
      by (simp add: showNat.simps [of n])
    then have "decimal (showNat n)
        = 10 * decimal (showNat (n div 10)) + digitVal (''0123456789'' ! (n mod 10))"
      by (simp only: decimal_snoc)
    with False 1 show ?thesis
      by (simp add: digitVal_digitChar [OF m])
  qed
qed

lemma mathInt_showNat: "mathInt (showNat n) = n"
proof -
  have "takeWhile isDigit (showNat n) = showNat n"
    using showNat_digits [of n] by simp
  then show ?thesis
    by (simp only: mathInt_def decimal_showNat)
qed

lemma parseInt_showNat: "parseInt (showNat n) = toDouble n"
  by (simp add: parseInt_def mathInt_showNat)

lemma bits_less: "n < 2 ^ k \<Longrightarrow> bits n \<le> k"
proof (induction k arbitrary: n)
  case 0
  then show ?case by (simp add: bits.simps [of 0])
next
  case (Suc k)
  then have "n div 2 < 2 ^ k"
    by auto
  with Suc.IH have "bits (n div 2) \<le> k" .
  then show ?case
    by (simp add: bits.simps [of n])
qed

lemma toDouble_exact: "n \<le> 2 ^ 53 \<Longrightarrow> toDouble n = Finite n"
proof -
  assume "n \<le> 2 ^ 53"
  then consider "n < 2 ^ 53" | "n = 9007199254740992"
    by fastforce
  then show ?thesis
  proof cases
    case 1
    then have "bits n \<le> 53" by (rule bits_less)
    then show ?thesis by (simp add: toDouble_def)
  next
    case 2
    then show ?thesis
      by (simp add: toDouble_def bits.simps Let_def)
  qed
qed

lemma jsMatch_here: "rmatch r s = (c, g, s') # t \<Longrightarrow> jsMatch r s = Some (c # g)"
  by (simp add: jsMatch.simps [of r s])

lemma jsMatch_skip: "rmatch r (x # s) = [] \<Longrightarrow> jsMatch r (x # s) = jsMatch r s"
  by (simp add: jsMatch.simps [of r "x # s"])

lemma jsMatch_Nil: "rmatch r [] = [] \<Longrightarrow> jsMatch r [] = None"
  by (simp add: jsMatch.simps [of r "[]"])

lemma seq_first:
  assumes "rmatch r1 s = (c1, g1, s1) # t1" and "rmatch r2 s1 = (c2, g2, s2) # t2"
  shows "\<exists>t. rmatch (Seq r1 r2) s = (c1 @ c2, g1 @ g2, s2) # t"
  using assms by simp

lemma group_first:
  assumes "rmatch r s = (c, g, s') # t"
  shows "\<exists>t'. rmatch (Group r) s = (c, c # g, s') # t'"
  using assms by simp

lemma greedy_first:
  assumes "\<forall>c\<in>set p. inCls k c" and "rest = [] \<or> \<not> inCls k (hd rest)"
    and "lo \<le> length p"
  shows "\<exists>t. greedy lo k (p @ rest) = (p, [], rest) # t"
proof -
  from assms(1,2) have "takeWhile (inCls k) (p @ rest) = p"
    by (cases rest) (simp_all add: takeWhile_append2)
  moreover from assms(3) have "[lo ..< Suc (length p)] = [lo ..< length p] @ [length p]"
    by simp
  ultimately show ?thesis
    by (simp add: greedy_def)
qed

lemma plus_first:
  assumes "p \<noteq> []" and "\<forall>c\<in>set p. inCls k c" and "rest = [] \<or> \<not> inCls k (hd rest)"
  shows "\<exists>t. rmatch (Plus k) (p @ rest) = (p, [], rest) # t"
proof -
  from assms(1) have "1 \<le> length p"
    by (cases p) simp_all
  from greedy_first [OF assms(2,3) this] show ?thesis by simp
qed

lemma star_first:
  assumes "\<forall>c\<in>set p. inCls k c" and "rest = [] \<or> \<not> inCls k (hd rest)"
  shows "\<exists>t. rmatch (Star k) (p @ rest) = (p, [], rest) # t"
  using greedy_first [OF assms, of 0] by simp

lemma digit_facts:
  assumes "isDigit c"
  shows "\<not> isSpace c" and "c \<notin> set ''ubloam''"
  using assms unfolding isDigit_def isSpace_def by auto

lemma range_skip: "\<not> isDigit x \<Longrightarrow> rmatch rangeRe (x # s) = []"
  by (simp add: rangeRe_def greedy_def)

lemma under_none:
  assumes "\<not> prefix ''under'' s" "\<not> prefix ''below'' s" "\<not> prefix ''less than'' s"
    "\<not> prefix ''upto'' s" "\<not> prefix ''up to'' s"
  shows "rmatch underRe s = []"
  using assms by (simp add: underRe_def)

lemma over_none:
  assumes "\<not> prefix ''over'' s" "\<not> prefix ''above'' s" "\<not> prefix ''more than'' s"
  shows "rmatch overRe s = []"
  using assms by (simp add: overRe_def)

lemma digits_skip:
  assumes "\<forall>c\<in>set ds. isDigit c"
  shows "jsMatch underRe (ds @ rest) = jsMatch underRe rest"
    and "jsMatch overRe (ds @ rest) = jsMatch overRe rest"
  using assms
proof (induction ds)
  case Nil
  {
    case 1 show ?case by simp
  next
    case 2 show ?case by simp
  }
next
  case (Cons d ds)
  {
    case 1
    then have d: "d \<notin> set ''ubloam''" and r: "\<forall>c\<in>set ds. isDigit c"
      using digit_facts(2) [of d] by simp_all
    from d have "rmatch underRe (d # (ds @ rest)) = []"
      by (intro under_none) auto
    then show ?case
      using Cons.IH(1) [OF r] by (simp add: jsMatch_skip)
  next
    case 2
    then have d: "d \<notin> set ''ubloam''" and r: "\<forall>c\<in>set ds. isDigit c"
      using digit_facts(2) [of d] by simp_all
    from d have "rmatch overRe (d # (ds @ rest)) = []"
      by (intro over_none) auto
    then show ?case
      using Cons.IH(2) [OF r] by (simp add: jsMatch_skip)
  }
qed

lemma between_range:
  "rangeMatch (''between '' @ showNat N @ '' and '' @ showNat M)
     = Some [showNat N @ '' and '' @ showNat M, showNat N, showNat M]"
proof -
  let ?n = "showNat N" and ?m = "showNat M"
  have n: "?n \<noteq> []" "\<forall>c\<in>set ?n. inCls Digit c" and m: "?m \<noteq> []" "\<forall>c\<in>set ?m. inCls Digit c"
    using showNat_digits [of N] showNat_digits [of M] by simp_all
  from m have hm: "\<not> inCls Space (hd ?m)"
    using digit_facts(1) [of "hd ?m"] by simp
  have sp: "\<forall>c\<in>set '' ''. inCls Space c" "\<not> inCls Digit CHR '' ''" "\<not> inCls Space CHR ''a''"
    by (simp_all add: isSpace_def isDigit_def)
  from plus_first [OF n, of "'' and '' @ ?m"] sp
  obtain t1 where "rmatch (Plus Digit) (?n @ '' and '' @ ?m) = (?n, [], '' and '' @ ?m) # t1"
    by auto
  from group_first [OF this]
  obtain t1' where a1: "rmatch (Group (Plus Digit)) (?n @ '' and '' @ ?m)
      = (?n, [?n], '' and '' @ ?m) # t1'" ..
  from star_first [OF sp(1), of "''and '' @ ?m"] sp(3)
  obtain t2 where a2: "rmatch (Star Space) ('' and '' @ ?m) = ('' '', [], ''and '' @ ?m) # t2"
    by auto
  have a3: "rmatch (Alt (Lit ''-'') (Alt (Lit ''to'') (Lit ''and''))) (''and '' @ ?m)
      = (''and'', [], '' '' @ ?m) # []"
    by simp
  from star_first [OF sp(1), of ?m] hm
  obtain t4 where a4: "rmatch (Star Space) ('' '' @ ?m) = ('' '', [], ?m) # t4"
    by auto
  from plus_first [OF m, of "[]"]
  obtain t5 where "rmatch (Plus Digit) ?m = (?m, [], []) # t5"
    by auto
  from group_first [OF this]
  obtain t5' where a5: "rmatch (Group (Plus Digit)) ?m = (?m, [?m], []) # t5'" ..
  from seq_first [OF a4 a5]
  obtain t6 where a6: "rmatch (Seq (Star Space) (Group (Plus Digit))) ('' '' @ ?m)
      = ('' '' @ ?m, [] @ [?m], []) # t6" ..
  from seq_first [OF a3 a6]
  obtain t7 where a7: "rmatch (Seq (Alt (Lit ''-'') (Alt (Lit ''to'') (Lit ''and'')))
        (Seq (Star Space) (Group (Plus Digit)))) (''and '' @ ?m)
      = (''and'' @ '' '' @ ?m, [] @ [] @ [?m], []) # t7" ..
  from seq_first [OF a2 a7]
  obtain t8 where a8: "rmatch (Seq (Star Space) (Seq (Alt (Lit ''-'') (Alt (Lit ''to'') (Lit ''and'')))
        (Seq (Star Space) (Group (Plus Digit))))) ('' and '' @ ?m)
      = ('' '' @ ''and'' @ '' '' @ ?m, [] @ [] @ [] @ [?m], []) # t8" ..
  from seq_first [OF a1 a8]
  obtain t9 where "rmatch rangeRe (?n @ '' and '' @ ?m)
      = (?n @ '' '' @ ''and'' @ '' '' @ ?m, [?n] @ [] @ [] @ [] @ [?m], []) # t9"
    unfolding rangeRe_def ..
  from jsMatch_here [OF this]
  have "jsMatch rangeRe (?n @ '' and '' @ ?m) = Some [?n @ '' and '' @ ?m, ?n, ?m]"
    by simp
  moreover have "jsMatch rangeRe (''between '' @ ?n @ '' and '' @ ?m)
      = jsMatch rangeRe (?n @ '' and '' @ ?m)"
    by (simp add: jsMatch_skip range_skip isDigit_def)
  ultimately show ?thesis
    by (simp add: rangeMatch_def)
qed

lemma between_under_over:
  "underMatch (''between '' @ showNat N @ '' and '' @ showNat M) = None"
  "overMatch (''between '' @ showNat N @ '' and '' @ showNat M) = None"
proof -
  let ?n = "showNat N" and ?m = "showNat M"
  have n: "\<forall>c\<in>set ?n. isDigit c" and m: "\<forall>c\<in>set ?m. isDigit c"
    using showNat_digits [of N] showNat_digits [of M] by simp_all
  have "jsMatch underRe (''between '' @ ?n @ '' and '' @ ?m)
      = jsMatch underRe (?n @ '' and '' @ ?m)"
    by (simp add: jsMatch_skip under_none)
  also have "\<dots> = jsMatch underRe ('' and '' @ ?m)"
    by (rule digits_skip(1) [OF n])
  also have "\<dots> = jsMatch underRe (?m @ [])"
    by (simp add: jsMatch_skip under_none)
  also have "\<dots> = jsMatch underRe []"
    by (rule digits_skip(1) [OF m])
  also have "\<dots> = None"
    by (simp add: jsMatch_Nil under_none)
  finally show "underMatch (''between '' @ showNat N @ '' and '' @ showNat M) = None"
    by (simp add: underMatch_def)
  have "jsMatch overRe (''between '' @ ?n @ '' and '' @ ?m)
      = jsMatch overRe (?n @ '' and '' @ ?m)"
    by (simp add: jsMatch_skip over_none)
  also have "\<dots> = jsMatch overRe ('' and '' @ ?m)"
    by (rule digits_skip(2) [OF n])
  also have "\<dots> = jsMatch overRe (?m @ [])"
    by (simp add: jsMatch_skip over_none)
  also have "\<dots> = jsMatch overRe []"
    by (rule digits_skip(2) [OF m])
  also have "\<dots> = None"
    by (simp add: jsMatch_Nil over_none)
  finally show "overMatch (''between '' @ showNat N @ '' and '' @ showNat M) = None"
    by (simp add: overMatch_def)
qed

lemma between_budget:
  "extractBudget (''between '' @ showNat N @ '' and '' @ showNat M)
     = \<lparr>budgetMax = Some (toDouble M), budgetMin = Some (toDouble N)\<rparr>"
  unfolding extractBudget_def between_range between_under_over
  by (simp add: parseInt_showNat)

subsection \<open>Answers that raise no exception\<close>

text \<open>
  The try block returns a response (lemma \<open>benign_tryBody\<close>) whenever the catalog was read,
  the model call succeeded and every entry of the answer is benign; an unparseable answer
  and an answer that is not an array have no entries.
\<close>

lemma getProp_Inr: "rec \<noteq> JNull \<Longrightarrow> \<exists>v. getProp rec k = Inr v"
  by (cases rec) (simp_all add: getProp_def)

lemma findE_total:
  assumes "\<And>x. \<exists>b. p x = Inr b"
  shows "\<exists>m. findE p xs = Inr m"
proof (induction xs)
  case Nil
  then show ?case by simp
next
  case (Cons x xs)
  from assms [of x] obtain b where "p x = Inr b" ..
  with Cons show ?case by auto
qed

lemma mapE_total:
  assumes "\<And>x. x \<in> set xs \<Longrightarrow> \<exists>y. f x = Inr y"
  shows "\<exists>ys. mapE f xs = Inr ys"
  using assms
proof (induction xs)
  case Nil
  then show ?case by simp
next
  case (Cons x xs)
  from Cons.prems [of x] obtain y where "f x = Inr y" by auto
  moreover from Cons obtain ys where "mapE f xs = Inr ys" by auto
  ultimately show ?case by (simp add: bindE_def)
qed

lemma benign_title:
  assumes "benignEntry rec"
  shows "\<exists>t. recTitleLower rec = Inr t"
proof -
  from assms obtain v where v: "getProp rec ''title'' = Inr v"
    using getProp_Inr [of rec "''title''"] by (auto simp: benignEntry_def)
  show ?thesis
  proof (cases v)
    case None
    with v show ?thesis by (simp add: recTitleLower_def bindE_def)
  next
    case (Some j)
    with v assms have "stringOrNull j"
      by (simp add: benignEntry_def)
    with v Some show ?thesis
      by (cases j) (simp_all add: recTitleLower_def bindE_def)
  qed
qed

lemma benign_matchOne:
  assumes "benignEntry rec"
  shows "\<exists>m. matchOne cands rec = Inr m"
proof -
  from benign_title [OF assms] obtain t where t: "recTitleLower rec = Inr t" ..
  have "\<exists>b. exactTitle rec f = Inr b" for f
    using t by (cases t) (auto simp: exactTitle_def bindE_def)
  then obtain m1 where m1: "findE (exactTitle rec) cands = Inr m1"
    using findE_total [of "exactTitle rec" cands] by blast
  have "\<exists>b. partialTitle rec f = Inr b" for f
    using t by (cases t) (auto simp: partialTitle_def bindE_def)
  then obtain m2' where m2': "findE (partialTitle rec) cands = Inr m2'"
    using findE_total [of "partialTitle rec" cands] by blast
  define m2 where "m2 = (case m1 of Some f \<Rightarrow> Some f | None \<Rightarrow> m2')"
  have s2: "(case m1 of Some f \<Rightarrow> Inr (Some f) | None \<Rightarrow> findE (partialTitle rec) cands) = Inr m2"
    using m2' by (simp add: m2_def split: option.splits)
  from assms have nn: "rec \<noteq> JNull"
    by (simp add: benignEntry_def)
  then obtain v where v: "getProp rec ''vendorName'' = Inr v"
    using getProp_Inr by blast
  have "\<exists>m3. (case v of None \<Rightarrow> Inr None
        | Some rv \<Rightarrow> if truthy rv then findE (vendorTest rv) cands else Inr None) = Inr m3"
  proof (cases v)
    case None
    then show ?thesis by simp
  next
    case (Some rv)
    show ?thesis
    proof (cases "truthy rv")
      case True
      with assms v Some have "stringOrNull rv"
        by (simp add: benignEntry_def)
      with True obtain s where "rv = JStr s"
        by (cases rv) simp_all
      then have "\<exists>b. vendorTest rv f = Inr b" for f
        by (auto simp: vendorTest_def split: option.splits)
      with Some True show ?thesis
        using findE_total [of "vendorTest rv" cands] by simp
    next
      case False
      with Some show ?thesis by simp
    qed
  qed
  then obtain m3' where m3': "(case v of None \<Rightarrow> Inr None
        | Some rv \<Rightarrow> if truthy rv then findE (vendorTest rv) cands else Inr None) = Inr m3'" ..
  define m3 where "m3 = (case m2 of Some f \<Rightarrow> Some f | None \<Rightarrow> m3')"
  have s3: "(case m2 of Some f \<Rightarrow> Inr (Some f)
            | None \<Rightarrow> bindE (getProp rec ''vendorName'') (\<lambda>v. case v of None \<Rightarrow> Inr None
                | Some rv \<Rightarrow> if truthy rv then findE (vendorTest rv) cands else Inr None))
        = Inr m3"
    using v m3' by (simp add: m3_def bindE_def split: option.splits)
  have e: "\<exists>r. enrich f rec = Inr r" for f
    using getProp_Inr [OF nn, of "''reason''"] getProp_Inr [OF nn, of "''matchScore''"]
    by (auto simp: enrich_def bindE_def)
  have "\<exists>m. (case m3 of None \<Rightarrow> Inr None | Some f \<Rightarrow> bindE (enrich f rec) (\<lambda>r. Inr (Some r))) = Inr m"
  proof (cases m3)
    case None
    then show ?thesis by simp
  next
    case (Some f)
    from e [of f] obtain r where "enrich f rec = Inr r" ..
    with Some show ?thesis by (simp add: bindE_def)
  qed
  with m1 s2 s3 show ?thesis
    by (simp add: matchOne_def bindE_def)
qed

lemma benign_respond:
  assumes "list_all benignEntry recs"
  shows "\<not> isl (respond promptLower cands recs)"
proof -
  from assms have "\<exists>y. matchOne cands x = Inr y" if "x \<in> set recs" for x
    using that benign_matchOne by (auto simp: list_all_iff)
  then obtain ms where "mapE (matchOne cands) recs = Inr ms"
    using mapE_total [of recs "matchOne cands"] by blast
  then show ?thesis
    by (simp add: respond_def matchedFoods_def bindE_def Let_def)
qed

lemma benign_tryBody:
  assumes "reply \<noteq> CallFailed" and "list_all benignEntry (answerList reply)"
  shows "\<not> isl (tryBody configured prompt (Some foods) reply)"
  using assms benign_respond [OF assms(2)]
  by (cases reply) (simp_all add: tryBody_def Let_def)

subsection \<open>Size capping\<close>

text \<open>
  C7. When a constraint was extracted and more than 50 items pass the filter, the candidate
  list is the ranking of the first 50 filtered items; when no constraint was extracted it is
  the ranking of the first 30 items of the whole catalog, and holds exactly those items: the
  cap is taken in recency order, before the sort by rating.
\<close>

theorem capping_before_ranking:
  "(wasFiltered promptLower \<and> length (filterFoods promptLower foods) > 50 \<longrightarrow>
      candidates promptLower foods
        = sortJs compareRating (take 50 (filterFoods promptLower foods)))
   \<and> (\<not> wasFiltered promptLower \<longrightarrow>
      candidates promptLower foods = sortJs compareRating (take 30 foods)
      \<and> set (candidates promptLower foods) = set (take 30 foods))"
  by (simp add: candidates_def capFoods_def set_sortJs)

text \<open>
  On 52 items that all pass the filter of "Indian food" the two oldest are cut although they
  would rank in the middle; on 35 items and a prompt without keywords the five oldest are
  cut, among them the best rated one (number 34).
\<close>

theorem capping_before_ranking_witness:
  "wasFiltered (toLowerCase ''Indian food'')
   \<and> length (filterFoods (toLowerCase ''Indian food'') (map sampleFood (rev [0 ..< 52]))) > 50
   \<and> candidates (toLowerCase ''Indian food'') (map sampleFood (rev [0 ..< 52]))
       = sortJs compareRating (map sampleFood (rev [2 ..< 52]))
   \<and> \<not> wasFiltered (toLowerCase ''something tasty'')
   \<and> map ident (candidates (toLowerCase ''something tasty'') (map sampleFood [0 ..< 35]))
       = [29, 24, 19, 14, 9, 4, 28, 23, 18, 13, 8, 3, 27, 22, 17, 12, 7, 2, 26, 21, 16, 11, 6,
          1, 25, 20, 15, 10, 5, 0]"
proof -
  have a: "wasFiltered (toLowerCase ''Indian food'')"
    by code_simp
  have b: "length (filterFoods (toLowerCase ''Indian food'') (map sampleFood (rev [0 ..< 52]))) > 50"
    by code_simp
  have c: "take 50 (filterFoods (toLowerCase ''Indian food'') (map sampleFood (rev [0 ..< 52])))
           = map sampleFood (rev [2 ..< 52])"
    by code_simp
  have d: "\<not> wasFiltered (toLowerCase ''something tasty'')"
    by code_simp
  have e: "map ident (sortJs compareRating (take 30 (map sampleFood [0 ..< 35])))
           = [29, 24, 19, 14, 9, 4, 28, 23, 18, 13, 8, 3, 27, 22, 17, 12, 7, 2, 26, 21, 16, 11,
              6, 1, 25, 20, 15, 10, 5, 0]"
    by code_simp
  from capping_before_ranking [of "toLowerCase ''Indian food''" "map sampleFood (rev [0 ..< 52])"]
    a b c
  have "candidates (toLowerCase ''Indian food'') (map sampleFood (rev [0 ..< 52]))
          = sortJs compareRating (map sampleFood (rev [2 ..< 52]))"
    by simp
  moreover from capping_before_ranking [of "toLowerCase ''something tasty''"
      "map sampleFood [0 ..< 35]"] d e
  have "map ident (candidates (toLowerCase ''something tasty'') (map sampleFood [0 ..< 35]))
          = [29, 24, 19, 14, 9, 4, 28, 23, 18, 13, 8, 3, 27, 22, 17, 12, 7, 2, 26, 21, 16, 11,
             6, 1, 25, 20, 15, 10, 5, 0]"
    by simp
  ultimately show ?thesis using a b d by blast
qed

subsection \<open>Budget extraction\<close>

text \<open>
  C5, as the code has it. The range pattern decides the budget only when neither the "under"
  nor the "over" pattern matched the text: then \<open>budgetMin\<close> is the Number \<^verbatim>\<open>parseInt\<close>
  reads from its first group and \<open>budgetMax\<close> the Number it reads from its second group, in
  the order written. When one of the directional patterns matched, the bounds are the ones
  those patterns give, whatever the range pattern finds. The Number read from a group is the
  integer its digits denote when that integer is at most \<open>2^53\<close>, and the nearest double
  above. In particular the text "between N and M", for any two numbers written in decimal,
  gives the minimum \<open>toDouble N\<close> and the maximum \<open>toDouble M\<close>, also when N is above M: N
  and M themselves when they are at most \<open>2^53\<close>.
\<close>

theorem budget_range_precedence:
  "(rangeMatch promptLower = Some m \<and> underMatch promptLower = None
      \<and> overMatch promptLower = None \<longrightarrow>
      budgetMin (extractBudget promptLower) = Some (toDouble (mathInt (m ! 1)))
      \<and> budgetMax (extractBudget promptLower) = Some (toDouble (mathInt (m ! 2)))
      \<and> (mathInt (m ! 1) \<le> 2 ^ 53 \<longrightarrow>
            budgetMin (extractBudget promptLower) = Some (Finite (mathInt (m ! 1))))
      \<and> (mathInt (m ! 2) \<le> 2 ^ 53 \<longrightarrow>
            budgetMax (extractBudget promptLower) = Some (Finite (mathInt (m ! 2)))))
   \<and> (underMatch promptLower \<noteq> None \<or> overMatch promptLower \<noteq> None \<longrightarrow>
      budgetMax (extractBudget promptLower)
        = map_option (\<lambda>u. parseInt (u ! 1)) (underMatch promptLower)
      \<and> budgetMin (extractBudget promptLower)
        = map_option (\<lambda>u. parseInt (u ! 1)) (overMatch promptLower))
   \<and> extractBudget (''between '' @ showNat N @ '' and '' @ showNat M)
       = \<lparr>budgetMax = Some (toDouble M), budgetMin = Some (toDouble N)\<rparr>
   \<and> (N \<le> 2 ^ 53 \<and> M \<le> 2 ^ 53 \<longrightarrow>
        extractBudget (''between '' @ showNat N @ '' and '' @ showNat M)
          = \<lparr>budgetMax = Some (Finite M), budgetMin = Some (Finite N)\<rparr>)"
proof -
  have "rangeMatch promptLower = Some m \<and> underMatch promptLower = None
      \<and> overMatch promptLower = None \<longrightarrow>
      budgetMin (extractBudget promptLower) = Some (toDouble (mathInt (m ! 1)))
      \<and> budgetMax (extractBudget promptLower) = Some (toDouble (mathInt (m ! 2)))"
    by (simp add: extractBudget_def Let_def parseInt_def)
  moreover have "underMatch promptLower \<noteq> None \<or> overMatch promptLower \<noteq> None \<longrightarrow>
      budgetMax (extractBudget promptLower)
        = map_option (\<lambda>u. parseInt (u ! 1)) (underMatch promptLower)
      \<and> budgetMin (extractBudget promptLower)
        = map_option (\<lambda>u. parseInt (u ! 1)) (overMatch promptLower)"
    by (auto simp: extractBudget_def Let_def split: option.splits)
  moreover have "toDouble k = Finite k" if "k \<le> 2 ^ 53" for k
    using that by (rule toDouble_exact)
  ultimately show ?thesis
    using between_budget [of N M] by simp
qed

text \<open>"Between 900 and 100" gives the minimum 900 and the maximum 100, unswapped;
  in "100-200 but under 150" and in "Over 100 or 5-10 items" the range is ignored.\<close>

theorem budget_range_precedence_witness:
  "rangeMatch (toLowerCase ''Between 900 and 100'') = Some [''900 and 100'', ''900'', ''100'']
   \<and> underMatch (toLowerCase ''Between 900 and 100'') = None
   \<and> overMatch (toLowerCase ''Between 900 and 100'') = None
   \<and> mathInt ''900'' = 900 \<and> mathInt ''100'' = 100
   \<and> budgetMin (extractBudget (toLowerCase ''Between 900 and 100'')) = Some (Finite 900)
   \<and> budgetMax (extractBudget (toLowerCase ''Between 900 and 100'')) = Some (Finite 100)
   \<and> rangeMatch (toLowerCase ''100-200 but under 150'') = Some [''100-200'', ''100'', ''200'']
   \<and> underMatch (toLowerCase ''100-200 but under 150'') \<noteq> None
   \<and> budgetMax (extractBudget (toLowerCase ''100-200 but under 150'')) = Some (Finite 150)
   \<and> budgetMin (extractBudget (toLowerCase ''100-200 but under 150'')) = None
   \<and> rangeMatch (toLowerCase ''Over 100 or 5-10 items'') = Some [''5-10'', ''5'', ''10'']
   \<and> overMatch (toLowerCase ''Over 100 or 5-10 items'') \<noteq> None
   \<and> budgetMax (extractBudget (toLowerCase ''Over 100 or 5-10 items'')) = None
   \<and> budgetMin (extractBudget (toLowerCase ''Over 100 or 5-10 items'')) = Some (Finite 100)
   \<and> extractBudget ''between 900 and 100''
       = \<lparr>budgetMax = Some (Finite 100), budgetMin = Some (Finite 900)\<rparr>"
proof -
  have s: "showNat 900 = ''900''" "showNat 100 = ''100''"
    by code_simp+
  have r'': "rangeMatch (toLowerCase ''Over 100 or 5-10 items'') = Some [''5-10'', ''5'', ''10'']"
    by code_simp
  have u'': "underMatch (toLowerCase ''Over 100 or 5-10 items'') = None"
    by code_simp
  have v'': "overMatch (toLowerCase ''Over 100 or 5-10 items'') = Some [''over 100'', ''100'']"
    by code_simp
  have p'': "parseInt ''100'' = Finite 100"
    by code_simp
  have r: "rangeMatch (toLowerCase ''Between 900 and 100'')
           = Some [''900 and 100'', ''900'', ''100'']"
    by code_simp
  have u: "underMatch (toLowerCase ''Between 900 and 100'') = None"
    by code_simp
  have v: "overMatch (toLowerCase ''Between 900 and 100'') = None"
    by code_simp
  have p: "mathInt ''900'' = 900" "mathInt ''100'' = 100"
    by code_simp+
  have p': "parseInt ''150'' = Finite 150"
    by code_simp
  have t: "toDouble 900 = Finite 900" "toDouble 100 = Finite 100"
    by (simp_all add: toDouble_exact)
  have r': "rangeMatch (toLowerCase ''100-200 but under 150'')
            = Some [''100-200'', ''100'', ''200'']"
    by code_simp
  have u': "underMatch (toLowerCase ''100-200 but under 150'') = Some [''under 150'', ''150'']"
    by code_simp
  have v': "overMatch (toLowerCase ''100-200 but under 150'') = None"
    by code_simp
  from budget_range_precedence [of "toLowerCase ''Between 900 and 100''"
      "[''900 and 100'', ''900'', ''100'']" 0 0] r u v p t
  have "budgetMin (extractBudget (toLowerCase ''Between 900 and 100'')) = Some (Finite 900)
        \<and> budgetMax (extractBudget (toLowerCase ''Between 900 and 100'')) = Some (Finite 100)"
    by simp
  moreover from budget_range_precedence [of "toLowerCase ''100-200 but under 150''" _ 0 0]
    u' v' p'
  have "budgetMax (extractBudget (toLowerCase ''100-200 but under 150'')) = Some (Finite 150)
        \<and> budgetMin (extractBudget (toLowerCase ''100-200 but under 150'')) = None"
    by simp
  moreover from budget_range_precedence [of "toLowerCase ''Over 100 or 5-10 items''" _ 0 0]
    u'' v'' p''
  have "budgetMax (extractBudget (toLowerCase ''Over 100 or 5-10 items'')) = None
        \<and> budgetMin (extractBudget (toLowerCase ''Over 100 or 5-10 items'')) = Some (Finite 100)"
    by simp
  moreover from budget_range_precedence [of "[]" "[]" 900 100] s t
  have "extractBudget ''between 900 and 100''
        = \<lparr>budgetMax = Some (Finite 100), budgetMin = Some (Finite 900)\<rparr>"
    by simp
  ultimately show ?thesis using r u v p r' u' r'' v'' by simp
qed

text \<open>
  The claim has the bounds equal to N and M for every prompt. The first number of "between
  9007199254740993 and 100" is \<open>2^53 + 1\<close>, which is no double: \<^verbatim>\<open>parseInt\<close> returns
  9007199254740992 and that is the minimum.
\<close>

theorem budget_range_rounding_counterexample:
  "rangeMatch (toLowerCase ''between 9007199254740993 and 100'')
     = Some [''9007199254740993 and 100'', ''9007199254740993'', ''100'']
   \<and> underMatch (toLowerCase ''between 9007199254740993 and 100'') = None
   \<and> overMatch (toLowerCase ''between 9007199254740993 and 100'') = None
   \<and> mathInt ''9007199254740993'' = 9007199254740993
   \<and> budgetMin (extractBudget (toLowerCase ''between 9007199254740993 and 100''))
       = Some (Finite 9007199254740992)"
proof -
  have r: "rangeMatch (toLowerCase ''between 9007199254740993 and 100'')
     = Some [''9007199254740993 and 100'', ''9007199254740993'', ''100'']"
    by code_simp
  have u: "underMatch (toLowerCase ''between 9007199254740993 and 100'') = None"
    by code_simp
  have v: "overMatch (toLowerCase ''between 9007199254740993 and 100'') = None"
    by code_simp
  have m: "mathInt ''9007199254740993'' = 9007199254740993"
    by (simp add: mathInt_def decimal_def isDigit_def digitVal_def)
  have d: "toDouble 9007199254740993 = Finite 9007199254740992"
    by (simp add: toDouble_def bits.simps Let_def)
  from r u v m d
  have "budgetMin (extractBudget (toLowerCase ''between 9007199254740993 and 100''))
       = Some (Finite 9007199254740992)"
    by (simp add: extractBudget_def Let_def parseInt_def)
  with r u v m show ?thesis by blast
qed

subsection \<open>Ranking law\<close>

text \<open>
  C6. In the list of every response (the ranked final list, the list synthesised from the
  pre-filtered candidates, the list of the catch block) no item comes before an item whose
  pair (rating average, rating count) is strictly higher; absent ratings count as (0, 0).
\<close>

theorem ranking_law:
  "sorted_wrt (\<lambda>a b. \<not> strictlyLower (item a) (item b))
     (items (getRecommendations configured prompt fetched reply refetched))"
proof (cases "tryBody configured prompt fetched reply")
  case (Inl e)
  then show ?thesis
    using catchBody_sorted [of refetched]
    by (simp add: getRecommendations_def compareRating_le)
next
  case (Inr resp)
  then have "sorted_wrt (\<lambda>a b. compareRating (item a) (item b) \<le> 0) (items resp)"
  proof (cases rule: tryBody_cases)
    case 1
    then show ?thesis by simp
  next
    case (2 foods)
    from 2(5) sorted_candidates show ?thesis by (rule respond_sorted)
  qed
  with Inr show ?thesis
    by (simp add: getRecommendations_def compareRating_le)
qed


text \<open>Eight items: an answer naming three of them, an unparseable answer and a failed
  call each give a list in descending order of (average, count).\<close>

theorem ranking_law_witness:
  "map (ident \<circ> item) (items (getRecommendations True ''Indian food''
      (Some (map sampleFood [0 ..< 8]))
      (Parsed (JArr [titled ''Dish 2'', titled ''dish 7'', titled ''Dish 4'']))
      None)) = [4, 7, 2]
   \<and> sorted_wrt (\<lambda>a b. \<not> strictlyLower (item a) (item b))
       (items (getRecommendations True ''Indian food'' (Some (map sampleFood [0 ..< 8]))
          (Parsed (JArr [titled ''Dish 2'', titled ''dish 7'', titled ''Dish 4''])) None))"
proof -
  have "map (ident \<circ> item) (items (getRecommendations True ''Indian food''
      (Some (map sampleFood [0 ..< 8]))
      (Parsed (JArr [titled ''Dish 2'', titled ''dish 7'', titled ''Dish 4'']))
      None)) = [4, 7, 2]"
    by code_simp
  with ranking_law [of True "''Indian food''" "Some (map sampleFood [0 ..< 8])"
      "Parsed (JArr [titled ''Dish 2'', titled ''dish 7'', titled ''Dish 4''])" None]
  show ?thesis by blast
qed

subsection \<open>Rating display\<close>

text \<open>
  C8, as the code has it. In every response each recommendation's \<open>ratingDisplay\<close> is
  "No ratings yet" when the item has no rating or its rating average is not above zero, and
  otherwise the average with one decimal, " stars (", the rating count and " reviews)". The
  test is on the average, not on the count.
\<close>

theorem rating_display_by_average:
  "\<forall>r \<in> set (items (getRecommendations configured prompt fetched reply refetched)).
     ratingDisplay r =
       (case rating (item r) of
          None \<Rightarrow> ''No ratings yet''
        | Some rt \<Rightarrow>
            if average rt > 0
            then toFixed1 (average rt) @ '' stars ('' @ showNat (count rt) @ '' reviews)''
            else ''No ratings yet'')"
proof
  fix r
  assume r: "r \<in> set (items (getRecommendations configured prompt fetched reply refetched))"
  have "ratingDisplay r = displayRating (item r)"
  proof (cases "tryBody configured prompt fetched reply")
    case (Inl e)
    with r show ?thesis
      by (auto simp: getRecommendations_def catchBody_items topRated_def split: option.splits)
  next
    case (Inr resp)
    with r have x: "r \<in> set (items resp)"
      by (simp add: getRecommendations_def)
    from Inr show ?thesis
    proof (cases rule: tryBody_cases)
      case 1
      with x show ?thesis by simp
    next
      case (2 foods)
      from respond_items [OF 2(5) x] show ?thesis by simp
    qed
  qed
  then show "ratingDisplay r =
       (case rating (item r) of
          None \<Rightarrow> ''No ratings yet''
        | Some rt \<Rightarrow>
            if average rt > 0
            then toFixed1 (average rt) @ '' stars ('' @ showNat (count rt) @ '' reviews)''
            else ''No ratings yet'')"
    by (simp add: displayRating_eq)
qed


theorem rating_display_by_average_witness:
  "map (ident \<circ> item) (items (getRecommendations True ''Indian food''
      (Some (map sampleFood [0 ..< 8])) Unparseable None)) = [4, 3, 7, 2, 6]
   \<and> map ratingDisplay (items (getRecommendations True ''Indian food''
      (Some (map sampleFood [0 ..< 8])) Unparseable None))
     = [''4.0 stars (4 reviews)'', ''3.0 stars (3 reviews)'', ''2.0 stars (7 reviews)'',
        ''2.0 stars (2 reviews)'', ''1.0 stars (6 reviews)'']"
proof -
  let ?rs = "items (getRecommendations True ''Indian food''
      (Some (map sampleFood [0 ..< 8])) Unparseable None)"
  let ?d = "\<lambda>f. case rating f of
          None \<Rightarrow> ''No ratings yet''
        | Some rt \<Rightarrow>
            if average rt > 0
            then toFixed1 (average rt) @ '' stars ('' @ showNat (count rt) @ '' reviews)''
            else ''No ratings yet''"
  have e: "map item ?rs = map sampleFood [4, 3, 7, 2, 6]"
    by code_simp
  from rating_display_by_average [of True "''Indian food''" "Some (map sampleFood [0 ..< 8])"
      Unparseable None]
  have "map ratingDisplay ?rs = map (\<lambda>r. ?d (item r)) ?rs"
    by (intro map_cong refl) blast
  also have "\<dots> = map ?d (map item ?rs)"
    by (simp add: comp_def)
  also have "\<dots> = [''4.0 stars (4 reviews)'', ''3.0 stars (3 reviews)'',
      ''2.0 stars (7 reviews)'', ''2.0 stars (2 reviews)'', ''1.0 stars (6 reviews)'']"
    unfolding e by code_simp
  finally have "map ratingDisplay ?rs = [''4.0 stars (4 reviews)'', ''3.0 stars (3 reviews)'',
      ''2.0 stars (7 reviews)'', ''2.0 stars (2 reviews)'', ''1.0 stars (6 reviews)'']" .
  moreover have "map (ident \<circ> item) ?rs = [4, 3, 7, 2, 6]"
    by code_simp
  ultimately show ?thesis by blast
qed

text \<open>
  The claim tests the count. An item rated 4.5 with no review is displayed with stars, and an
  item with three reviews averaging 0 is displayed as unrated.
\<close>

theorem rating_display_counterexample:
  "map (ratingCount \<circ> item) (items (getRecommendations True ''something tasty''
      (Some [ratedFood 1 (9 / 2) 0, ratedFood 2 0 3])
      (Parsed (JArr [titled ''Dish 1'', titled ''Dish 2''])) None)) = [0, 3]
   \<and> map ratingDisplay (items (getRecommendations True ''something tasty''
      (Some [ratedFood 1 (9 / 2) 0, ratedFood 2 0 3])
      (Parsed (JArr [titled ''Dish 1'', titled ''Dish 2''])) None))
     = [''4.5 stars (0 reviews)'', ''No ratings yet'']"
  by code_simp

subsection \<open>No match\<close>

text \<open>
  C2. When a constraint was extracted from the prompt and the filter leaves no item of the
  catalog, no response carries an item; with the service configured and a non-empty catalog
  the response is the 404 "no items match your criteria" with an empty list, whatever the
  model would have answered and whatever the catalog holds.
\<close>

theorem no_match_short_circuit:
  assumes "wasFiltered (toLowerCase prompt)"
    and "filterFoods (toLowerCase prompt) foods = []"
  shows "items (getRecommendations configured prompt (Some foods) reply refetched) = []
     \<and> (configured \<and> foods \<noteq> [] \<longrightarrow>
          getRecommendations configured prompt (Some foods) reply refetched
            = failure 404
                ''No food items found matching your specific criteria. Please try adjusting your request (e.g., different location, cuisine, or budget).''
                (Some []))"
proof -
  from assms(1) have t: "trim prompt \<noteq> []"
    using blank_not_filtered by blast
  then have "prompt \<noteq> []"
    by (auto simp: trim_def)
  with t assms show ?thesis
    by (simp add: getRecommendations_def tryBody_def Let_def)
qed

theorem no_match_short_circuit_witness:
  "wasFiltered (toLowerCase ''Pizza in Tokyo'')
   \<and> filterFoods (toLowerCase ''Pizza in Tokyo'') (map sampleFood [0 ..< 3]) = []
   \<and> getRecommendations True ''Pizza in Tokyo'' (Some (map sampleFood [0 ..< 3]))
        (Parsed (JArr [titled ''Dish 1''])) (Some (map sampleFood [0 ..< 3]))
      = failure 404
          ''No food items found matching your specific criteria. Please try adjusting your request (e.g., different location, cuisine, or budget).''
          (Some [])"
proof -
  have a: "wasFiltered (toLowerCase ''Pizza in Tokyo'')"
    by code_simp
  have b: "filterFoods (toLowerCase ''Pizza in Tokyo'') (map sampleFood [0 ..< 3]) = []"
    by code_simp
  have c: "map sampleFood [0 ..< 3] \<noteq> []"
    by simp
  from no_match_short_circuit [OF a b, of True "Parsed (JArr [titled ''Dish 1''])"
      "Some (map sampleFood [0 ..< 3])"] a b c
  show ?thesis by simp
qed

subsection \<open>Dietary words in the cuisine vocabulary\<close>

text \<open>
  C9. "vegetarian" and "vegan" are cuisine keywords. When the lower-cased prompt contains one
  of them and no cuisine keyword listed before it, that word is the cuisine constraint, and
  every item that passes the filter, hence every candidate, satisfies the cuisine test for
  it. A prompt containing "non-vegetarian" contains "vegetarian" (lemma
  \<open>includes_non_vegetarian\<close>): its vegetarian dietary test is switched off, the cuisine test
  for "vegetarian" is not.
\<close>

theorem dietary_words_as_cuisine:
  assumes "w = ''vegetarian'' \<or> w = ''vegan''"
    and "includesStr promptLower w"
    and "\<forall>k\<in>set (takeWhile (\<lambda>k. k \<noteq> w) cuisineKeywords). \<not> includesStr promptLower k"
  shows "w \<in> set cuisineKeywords
     \<and> mentionedCuisine promptLower = Some w
     \<and> (\<forall>f\<in>set (filterFoods promptLower foods). cuisineFilter w f)
     \<and> (\<forall>f\<in>set (candidates promptLower foods). cuisineFilter w f)
     \<and> (includesStr promptLower ''non-vegetarian'' \<longrightarrow> \<not> wantsVegetarian promptLower)"
proof -
  from assms(1) have w: "w \<in> set cuisineKeywords"
    by (auto simp: cuisineKeywords_def)
  from w assms(2,3) have m: "mentionedCuisine promptLower = Some w"
    unfolding mentionedCuisine_def by (rule find_first)
  then have f: "\<forall>f\<in>set (filterFoods promptLower foods). cuisineFilter w f"
    by (simp add: filterFoods_conv filterAccepts_def)
  from m have "wasFiltered promptLower"
    by (simp add: wasFiltered_def)
  with f have "\<forall>f\<in>set (candidates promptLower foods). cuisineFilter w f"
    using candidates_subset by blast
  with w m f show ?thesis
    by (simp add: wantsVegetarian_def)
qed


text \<open>"Non-vegetarian food please": of two vegetarian Indian dishes and one item of
  vegetarian cuisine without dietary flags, only the last is kept.\<close>

theorem dietary_words_as_cuisine_witness:
  "includesStr (toLowerCase ''Non-vegetarian food please'') ''vegetarian''
   \<and> filter (includesStr (toLowerCase ''Non-vegetarian food please''))
        (takeWhile (\<lambda>k. k \<noteq> ''vegetarian'') cuisineKeywords) = []
   \<and> mentionedCuisine (toLowerCase ''Non-vegetarian food please'') = Some ''vegetarian''
   \<and> \<not> wantsVegetarian (toLowerCase ''Non-vegetarian food please'')
   \<and> map ident (filterFoods (toLowerCase ''Non-vegetarian food please'')
        [sampleFood 0, vegCuisineMeat, sampleFood 2]) = [1]
   \<and> cuisineFilter ''vegetarian'' vegCuisineMeat
   \<and> \<not> hasFlag vegetarian vegCuisineMeat"
proof -
  let ?p = "toLowerCase ''Non-vegetarian food please''"
  have a: "includesStr ?p ''vegetarian''"
    by code_simp
  have b': "filter (includesStr ?p) (takeWhile (\<lambda>k. k \<noteq> ''vegetarian'') cuisineKeywords) = []"
    by code_simp
  then have b: "\<forall>k\<in>set (takeWhile (\<lambda>k. k \<noteq> ''vegetarian'') cuisineKeywords). \<not> includesStr ?p k"
    by (simp only: filter_empty_conv) 
  have c: "includesStr ?p ''non-vegetarian''"
    by code_simp
  have d: "filterFoods ?p [sampleFood 0, vegCuisineMeat, sampleFood 2] = [vegCuisineMeat]"
    by code_simp
  have e: "ident vegCuisineMeat = 1" "\<not> hasFlag vegetarian vegCuisineMeat"
    by code_simp+
  from dietary_words_as_cuisine [of "''vegetarian''" ?p
      "[sampleFood 0, vegCuisineMeat, sampleFood 2]"] a b c d e
  have "mentionedCuisine ?p = Some ''vegetarian'' \<and> \<not> wantsVegetarian ?p
        \<and> cuisineFilter ''vegetarian'' vegCuisineMeat"
    by simp
  with a b' d e show ?thesis by simp
qed

subsection \<open>Budget ceiling\<close>

lemma under_sets_budgetMax:
  "underMatch promptLower = Some m \<Longrightarrow> budgetMax (extractBudget promptLower) = Some (parseInt (m ! 1))"
  by (simp add: extractBudget_def Let_def split: option.splits)

lemma budgetFilter_max:
  assumes "budgetFilter b f" and "budgetMax b = Some mx" and "price f = Some p"
  shows "\<not> priceAbove p mx"
proof (cases "p = 0")
  case True
  then show ?thesis by (cases mx) simp_all
next
  case False
  with assms show ?thesis
    by (simp add: budgetFilter_def split: if_splits)
qed

lemma tryBody_items_filtered:
  assumes "tryBody configured prompt fetched reply = Inr resp"
    and "wasFiltered (toLowerCase prompt)"
    and "r \<in> set (items resp)"
  shows "\<exists>foods. fetched = Some foods \<and> item r \<in> set (filterFoods (toLowerCase prompt) foods)"
  using assms(1)
proof (cases rule: tryBody_cases)
  case 1
  with assms(3) show ?thesis by simp
next
  case (2 foods)
  from respond_items [OF 2(5) assms(3)] have "item r \<in> set (candidates (toLowerCase prompt) foods)"
    by simp
  with candidates_subset [OF assms(2)] 2(1) show ?thesis by blast
qed

text \<open>The bound read from "under 9007199254740995" is the double 9007199254740996, which a
  price of 9007199254740996 does not exceed.\<close>

lemma under_budget_rounding:
  "underMatch (toLowerCase ''under 9007199254740995'')
     = Some [''under 9007199254740995'', ''9007199254740995'']
   \<and> mathInt ''9007199254740995'' = 9007199254740995
   \<and> budgetMax (extractBudget (toLowerCase ''under 9007199254740995''))
       = Some (Finite 9007199254740996)
   \<and> \<not> priceAbove 9007199254740996 (Finite 9007199254740996)"
proof -
  have u: "underMatch (toLowerCase ''under 9007199254740995'')
     = Some [''under 9007199254740995'', ''9007199254740995'']"
    by code_simp
  have m: "mathInt ''9007199254740995'' = 9007199254740995"
    by (simp add: mathInt_def decimal_def isDigit_def digitVal_def)
  have d: "toDouble 9007199254740995 = Finite 9007199254740996"
    by (simp add: toDouble_def bits.simps Let_def)
  from under_sets_budgetMax [OF u] m d
  have "budgetMax (extractBudget (toLowerCase ''under 9007199254740995''))
       = Some (Finite 9007199254740996)"
    by (simp add: parseInt_def)
  with u m show ?thesis by simp
qed

text \<open>
  C1, as the code has it. When the "under" pattern matches the prompt with the digits of \<open>N\<close>
  and the request is answered by the try block (no exception reaches the catch block), no
  recommendation in the response has a known price above the bound \<^verbatim>\<open>parseInt\<close> reads from
  those digits: above \<open>N\<close> itself when \<open>N\<close> is at most \<open>2^53\<close>, above the nearest double
  otherwise. This covers the validated list, the unvalidated reconciled list and the list
  synthesised from the pre-filtered candidates. The catch block is outside: it ranks the
  whole catalog and applies no constraint. By lemma \<open>benign_tryBody\<close> the try block answers
  whenever the catalog was read, the model call succeeded and the entries of its answer are
  benign.
\<close>

theorem under_budget_respected:
  assumes "underMatch (toLowerCase prompt) = Some m"
    and "\<not> isl (tryBody configured prompt fetched reply)"
  shows "\<forall>r\<in>set (items (getRecommendations configured prompt fetched reply refetched)).
           \<forall>p. price (item r) = Some p \<longrightarrow>
             \<not> priceAbove p (parseInt (m ! 1))
             \<and> (mathInt (m ! 1) \<le> 2 ^ 53 \<longrightarrow> p \<le> of_nat (mathInt (m ! 1)))"
proof (intro ballI allI impI)
  fix r p
  assume r: "r \<in> set (items (getRecommendations configured prompt fetched reply refetched))"
    and p: "price (item r) = Some p"
  from assms(2) obtain resp where resp: "tryBody configured prompt fetched reply = Inr resp"
    by (cases "tryBody configured prompt fetched reply") auto
  with r have r': "r \<in> set (items resp)"
    by (simp add: getRecommendations_def)
  have mx: "budgetMax (extractBudget (toLowerCase prompt)) = Some (parseInt (m ! 1))"
    using assms(1) by (rule under_sets_budgetMax)
  then have w: "wasFiltered (toLowerCase prompt)"
    by (simp add: wasFiltered_def)
  from tryBody_items_filtered [OF resp w r'] obtain foods
    where "item r \<in> set (filterFoods (toLowerCase prompt) foods)"
    by blast
  then have "filterAccepts (toLowerCase prompt) (item r)"
    by (simp add: filterFoods_conv)
  with mx have "budgetFilter (extractBudget (toLowerCase prompt)) (item r)"
    by (simp add: filterAccepts_def hasBudget_def)
  from budgetFilter_max [OF this mx p] have a: "\<not> priceAbove p (parseInt (m ! 1))" .
  have "p \<le> of_nat (mathInt (m ! 1))" if "mathInt (m ! 1) \<le> 2 ^ 53"
  proof -
    from that have "parseInt (m ! 1) = Finite (mathInt (m ! 1))"
      by (simp add: parseInt_def toDouble_exact)
    with a show ?thesis by simp
  qed
  with a show "\<not> priceAbove p (parseInt (m ! 1))
      \<and> (mathInt (m ! 1) \<le> 2 ^ 53 \<longrightarrow> p \<le> of_nat (mathInt (m ! 1)))"
    by blast
qed

theorem under_budget_respected_witness:
  "underMatch (toLowerCase ''Dinner under 100'') = Some [''under 100'', ''100'']
   \<and> mathInt ''100'' = 100
   \<and> \<not> isl (tryBody True ''Dinner under 100'' (Some [sampleFood 1, cheapFood])
             (Parsed (JArr [titled ''Dish 1'', titled ''Dish 2''])))
   \<and> map (price \<circ> item) (items (getRecommendations True ''Dinner under 100''
        (Some [sampleFood 1, cheapFood]) (Parsed (JArr [titled ''Dish 1'', titled ''Dish 2'']))
        None)) = [Some 80]
   \<and> list_all (\<lambda>r. case price (item r) of None \<Rightarrow> True | Some p \<Rightarrow> p \<le> 100)
        (items (getRecommendations True ''Dinner under 100'' (Some [sampleFood 1, cheapFood])
           (Parsed (JArr [titled ''Dish 1'', titled ''Dish 2''])) None))"
proof -
  have a: "underMatch (toLowerCase ''Dinner under 100'') = Some [''under 100'', ''100'']"
    by code_simp
  have b: "\<not> isl (tryBody True ''Dinner under 100'' (Some [sampleFood 1, cheapFood])
             (Parsed (JArr [titled ''Dish 1'', titled ''Dish 2''])))"
    by code_simp
  have c: "map (price \<circ> item) (items (getRecommendations True ''Dinner under 100''
        (Some [sampleFood 1, cheapFood]) (Parsed (JArr [titled ''Dish 1'', titled ''Dish 2'']))
        None)) = [Some 80]"
    by code_simp
  have d: "mathInt ''100'' = 100"
    by code_simp
  have e: "(100::nat) \<le> 2 ^ 53"
    by simp
  from under_budget_respected [OF a b, of None] d e
  have "list_all (\<lambda>r. case price (item r) of None \<Rightarrow> True | Some p \<Rightarrow> p \<le> 100)
        (items (getRecommendations True ''Dinner under 100'' (Some [sampleFood 1, cheapFood])
           (Parsed (JArr [titled ''Dish 1'', titled ''Dish 2''])) None))"
    by (simp add: list_all_iff split: option.splits)
  with a b c d show ?thesis by blast
qed

text \<open>
  With the same prompt and catalog, a failed model call is answered by the catch block with
  the top-rated items of the whole catalog: the second one costs 120.
\<close>

theorem under_budget_catch_counterexample:
  "underMatch (toLowerCase ''Dinner under 100'') = Some [''under 100'', ''100'']
   \<and> parseInt ''100'' = Finite 100
   \<and> map (price \<circ> item) (items (getRecommendations True ''Dinner under 100''
        (Some [sampleFood 1, cheapFood]) CallFailed (Some [sampleFood 1, cheapFood])))
      = [Some 80, Some 120]"
  by code_simp

subsection \<open>Post-validation against the filter\<close>

lemma validatedFoods_single: "validatedFoods promptLower [r] = [r] \<longleftrightarrow> validFood promptLower (item r)"
  by (simp add: validatedFoods_def)

lemma valid_imp_accepts:
  assumes "validFood promptLower f"
    and "hasBudget (extractBudget promptLower) \<longrightarrow> (\<exists>p. price f = Some p \<and> p \<noteq> 0)"
  shows "filterAccepts promptLower f"
proof -
  from assms(1) have c: "case mentionedCity promptLower of None \<Rightarrow> True | Some mc \<Rightarrow> cityFilter mc f"
    by (auto simp: validFood_def Let_def cityFilter_def split: option.splits if_splits)
  from assms(1) have u: "case mentionedCuisine promptLower of None \<Rightarrow> True | Some mc \<Rightarrow> cuisineFilter mc f"
    by (auto simp: validFood_def Let_def cuisineFilter_def split: option.splits if_splits)
  from assms(1) have d: "wantsVegetarian promptLower \<longrightarrow> hasFlag vegetarian f"
    "wantsVegan promptLower \<longrightarrow> hasFlag vegan f"
    "wantsGlutenFree promptLower \<longrightarrow> hasFlag glutenfree f"
    "wantsHalal promptLower \<longrightarrow> hasFlag halal f"
    by (auto simp: validFood_def Let_def split: if_splits)
  have b: "budgetFilter (extractBudget promptLower) f" if "hasBudget (extractBudget promptLower)"
  proof -
    from that assms(2) obtain p where p: "price f = Some p" "p \<noteq> 0" by blast
    from assms(1) p show ?thesis
      by (auto simp: validFood_def Let_def budgetFilter_def split: if_splits option.splits)
  qed
  from c u d b show ?thesis
    by (simp add: filterAccepts_def)
qed


lemma accepts_imp_valid:
  assumes "filterAccepts promptLower f"
    and "\<forall>mc. mentionedCity promptLower = Some mc \<longrightarrow>
           includesStr (toLowerCase (orEmpty (city f))) mc
           \<or> includesStr (toLowerCase (orEmpty (address f))) mc"
    and "\<forall>mc. mentionedCuisine promptLower = Some mc \<longrightarrow>
           includesStr (toLowerCase (orEmpty (cuisineType f))) mc"
  shows "validFood promptLower f"
proof -
  from assms(1) have d: "wantsVegetarian promptLower \<longrightarrow> hasFlag vegetarian f"
    "wantsVegan promptLower \<longrightarrow> hasFlag vegan f"
    "wantsGlutenFree promptLower \<longrightarrow> hasFlag glutenfree f"
    "wantsHalal promptLower \<longrightarrow> hasFlag halal f"
    by (simp_all add: filterAccepts_def)
  have mx: "\<not> (p \<noteq> 0 \<and> priceAbove p mx)"
    if "budgetMax (extractBudget promptLower) = Some mx" "price f = Some p" for mx p
  proof -
    from that(1) assms(1) have "budgetFilter (extractBudget promptLower) f"
      by (simp add: filterAccepts_def hasBudget_def)
    with that show ?thesis
      by (auto simp: budgetFilter_def split: if_splits)
  qed
  have mn: "\<not> (p \<noteq> 0 \<and> priceBelow p mn)"
    if "budgetMin (extractBudget promptLower) = Some mn" "price f = Some p" for mn p
  proof -
    from that(1) assms(1) have "budgetFilter (extractBudget promptLower) f"
      by (simp add: filterAccepts_def hasBudget_def)
    with that show ?thesis
      by (auto simp: budgetFilter_def split: if_splits option.splits)
  qed
  from assms(2,3) d mx mn show ?thesis
    by (auto simp: validFood_def Let_def split: option.splits)
qed

text \<open>
  C3, as the code has it. The post-validator is not the filter's predicate: it tests city and
  cuisine by direct containment only, and it skips the budget test of an item whose price is
  absent or zero, where the filter reads the price tier. The two agree on the dietary flags
  and on the budget of a priced item. So an item that passes post-validation passes the
  filter when it has a non-zero price or no budget was extracted, and an item that passes
  the filter passes post-validation when its city or address contains the city keyword and
  its cuisine type contains the cuisine keyword.
\<close>

theorem validator_vs_filter:
  "(validatedFoods promptLower [r] = [r]
      \<and> (hasBudget (extractBudget promptLower) \<longrightarrow> (\<exists>p. price (item r) = Some p \<and> p \<noteq> 0))
      \<longrightarrow> filterFoods promptLower [item r] = [item r])
   \<and> (filterFoods promptLower [item r] = [item r]
      \<and> (\<forall>mc. mentionedCity promptLower = Some mc \<longrightarrow>
            includesStr (toLowerCase (orEmpty (city (item r)))) mc
            \<or> includesStr (toLowerCase (orEmpty (address (item r)))) mc)
      \<and> (\<forall>mc. mentionedCuisine promptLower = Some mc \<longrightarrow>
            includesStr (toLowerCase (orEmpty (cuisineType (item r)))) mc)
      \<longrightarrow> validatedFoods promptLower [r] = [r])"
  unfolding validatedFoods_single filterFoods_single
  using valid_imp_accepts [of promptLower "item r"] accepts_imp_valid [of promptLower "item r"]
  by blast


text \<open>An Indian dish in Pune at 120 passes both for "Indian food under 200 in Pune"; an
  unpriced Indian dish in Pune passes both for "Indian food in Pune".\<close>

theorem validator_vs_filter_witness:
  "validatedFoods (toLowerCase ''Indian food under 200 in Pune'') [plain (sampleFood 1)]
     = [plain (sampleFood 1)]
   \<and> hasBudget (extractBudget (toLowerCase ''Indian food under 200 in Pune''))
   \<and> price (item (plain (sampleFood 1))) = Some 120
   \<and> filterFoods (toLowerCase ''Indian food under 200 in Pune'') [sampleFood 1] = [sampleFood 1]
   \<and> filterFoods (toLowerCase ''Indian food in Pune'') [unpricedFood] = [unpricedFood]
   \<and> mentionedCity (toLowerCase ''Indian food in Pune'') = Some ''pune''
   \<and> includesStr (toLowerCase (orEmpty (city unpricedFood))) ''pune''
   \<and> mentionedCuisine (toLowerCase ''Indian food in Pune'') = Some ''indian''
   \<and> includesStr (toLowerCase (orEmpty (cuisineType unpricedFood))) ''indian''
   \<and> validatedFoods (toLowerCase ''Indian food in Pune'') [plain unpricedFood]
       = [plain unpricedFood]"
proof -
  let ?p = "toLowerCase ''Indian food under 200 in Pune''"
  let ?q = "toLowerCase ''Indian food in Pune''"
  have a: "validatedFoods ?p [plain (sampleFood 1)] = [plain (sampleFood 1)]"
    by code_simp
  have b: "hasBudget (extractBudget ?p)"
    by code_simp
  have c: "price (item (plain (sampleFood 1))) = Some 120"
    "item (plain (sampleFood 1)) = sampleFood 1"
    by code_simp+
  have d: "(120::rat) \<noteq> 0"
    by simp
  from validator_vs_filter [of ?p "plain (sampleFood 1)"] a c d
  have e: "filterFoods ?p [sampleFood 1] = [sampleFood 1]"
    by simp
  have f: "filterFoods ?q [unpricedFood] = [unpricedFood]"
    by code_simp
  have g: "mentionedCity ?q = Some ''pune''" "mentionedCuisine ?q = Some ''indian''"
    by code_simp+
  have h: "includesStr (toLowerCase (orEmpty (city unpricedFood))) ''pune''"
    "includesStr (toLowerCase (orEmpty (cuisineType unpricedFood))) ''indian''"
    by code_simp+
  have i: "item (plain unpricedFood) = unpricedFood"
    by (simp add: plain_def)
  from validator_vs_filter [of ?q "plain unpricedFood"] f g h i
  have "validatedFoods ?q [plain unpricedFood] = [plain unpricedFood]"
    by simp
  with a b c(1) e f g h show ?thesis by blast
qed

text \<open>
  "Pizza in New York" and an item in York: the filter keeps it (the keyword contains the
  item's city), the validator drops it. "Dinner under 100" and an unpriced item of the
  highest tier: the filter drops it, the validator keeps it.
\<close>

theorem validator_filter_counterexample:
  "filterFoods (toLowerCase ''Pizza in New York'') [yorkFood] = [yorkFood]
   \<and> validatedFoods (toLowerCase ''Pizza in New York'') [plain yorkFood] = []
   \<and> filterFoods (toLowerCase ''Dinner under 100'') [unpricedFood] = []
   \<and> validatedFoods (toLowerCase ''Dinner under 100'') [plain unpricedFood]
       = [plain unpricedFood]"
  by code_simp


subsection \<open>Scenario A\<close>

lemma respond_nonempty:
  assumes "respond promptLower cands recs = Inr resp"
    and "cands \<noteq> []" and "wasFiltered promptLower"
  shows "success resp \<and> items resp \<noteq> []"
proof -
  from assms(1) obtain matched where m: "matchedFoods cands recs = Inr matched"
    by (auto simp: respond_def bindE_def split: sum.splits)
  define final where
    "final = (if validatedFoods promptLower matched \<noteq> [] then validatedFoods promptLower matched
              else matched)"
  show ?thesis
  proof (cases "final = []")
    case True
    with assms m have "resp = found (''Found '' @ showNat (length (map topFiltered (take 5 cands)))
        @ '' food items matching your request!'') (map topFiltered (take 5 cands)) None"
      by (auto simp: respond_def bindE_def Let_def final_def split: if_splits)
    with assms(2) show ?thesis
      by (simp add: found_def items_def)
  next
    case False
    with assms(1) m have "resp = found (''Found ''
        @ showNat (length (take 6 (sortJs (\<lambda>a b. compareRating (item a) (item b)) final)))
        @ '' personalized recommendations for you!'')
        (take 6 (sortJs (\<lambda>a b. compareRating (item a) (item b)) final)) None"
      by (auto simp: respond_def bindE_def Let_def final_def split: if_splits)
    moreover from False have "sortJs (\<lambda>a b. compareRating (item a) (item b)) final \<noteq> []"
      using length_sortJs [of "\<lambda>a b. compareRating (item a) (item b)" final] by auto
    ultimately show ?thesis
      by (simp add: found_def items_def)
  qed
qed

lemma tryBody_respond:
  assumes "trim prompt \<noteq> []" and "filterFoods (toLowerCase prompt) foods \<noteq> []"
    and "\<not> isl (tryBody True prompt (Some foods) reply)"
  shows "tryBody True prompt (Some foods) reply
         = respond (toLowerCase prompt) (candidates (toLowerCase prompt) foods) (answerList reply)"
proof -
  from assms(1) have p: "prompt \<noteq> []"
    by (auto simp: trim_def)
  from assms(2) have f: "foods \<noteq> []"
    by (auto simp: filterFoods_conv)
  from assms(3) p f assms(1,2) have "reply \<noteq> CallFailed"
    by (auto simp: tryBody_def Let_def)
  with p f assms(1,2) show ?thesis
    by (cases reply) (simp_all add: tryBody_def Let_def)
qed

lemma scenario_prompt:
  "mentionedCity (toLowerCase scenarioPrompt) = Some ''pune''"
  "mentionedCuisine (toLowerCase scenarioPrompt) = Some ''vegan''"
  "\<not> wantsVegetarian (toLowerCase scenarioPrompt)"
  "wantsVegan (toLowerCase scenarioPrompt)"
  "\<not> wantsGlutenFree (toLowerCase scenarioPrompt)"
  "\<not> wantsHalal (toLowerCase scenarioPrompt)"
  "extractBudget (toLowerCase scenarioPrompt)
     = \<lparr>budgetMax = Some (Finite 300), budgetMin = None\<rparr>"
  "wasFiltered (toLowerCase scenarioPrompt)"
  "trim scenarioPrompt \<noteq> []"
  by code_simp+

lemma pune_city: "city f = Some ''Pune'' \<Longrightarrow> cityFilter ''pune'' f"
proof -
  assume "city f = Some ''Pune''"
  moreover have "toLowerCase ''Pune'' = ''pune''"
    by code_simp
  ultimately show ?thesis
    by (simp add: cityFilter_def orEmpty_def Let_def)
qed

lemma scenario_filter:
  assumes "city v = Some ''Pune''" "price v = Some 250" "hasFlag vegan v" "cuisineFilter ''vegan'' v"
    and "\<not> hasFlag vegan n"
    and "foods = [v, n] \<or> foods = [n, v]"
  shows "filterFoods (toLowerCase scenarioPrompt) foods = [v]"
proof -
  have "filterAccepts (toLowerCase scenarioPrompt) v"
    using assms(2,3,4) pune_city [OF assms(1)]
    by (simp add: filterAccepts_def scenario_prompt hasBudget_def budgetFilter_def)
  moreover have "\<not> filterAccepts (toLowerCase scenarioPrompt) n"
    using assms(5) by (simp add: filterAccepts_def scenario_prompt)
  ultimately show ?thesis
    using assms(6) by (auto simp: filterFoods_conv)
qed

text \<open>
  C4, as the code has it. For the prompt "vegan food under 300 in Pune" and a catalog of
  exactly a vegan item in Pune at 250 whose cuisine type passes the cuisine test for "vegan"
  (the word is a cuisine keyword) and a non-vegan item in Pune at 200, in either order:
  whenever the try block answers the request (the model call succeeds and no entry of its
  answer raises a TypeError), the response is a success whose list is not empty and holds
  the vegan item only. This includes an unparseable answer, an answer that is not an array,
  an empty array and every array of benign entries (lemma \<open>benign_tryBody\<close>), whatever
  items they name.
\<close>

theorem scenario_vegan_pune:
  assumes "city v = Some ''Pune''" "price v = Some 250" "hasFlag vegan v"
    and "cuisineFilter ''vegan'' v"
    and "city n = Some ''Pune''" "price n = Some 200" "\<not> hasFlag vegan n"
    and "foods = [v, n] \<or> foods = [n, v]"
    and "\<not> isl (tryBody True scenarioPrompt (Some foods) reply)"
  shows "success (getRecommendations True scenarioPrompt (Some foods) reply refetched)
     \<and> items (getRecommendations True scenarioPrompt (Some foods) reply refetched) \<noteq> []
     \<and> (\<forall>r\<in>set (items (getRecommendations True scenarioPrompt (Some foods) reply refetched)).
           item r = v)"
proof -
  let ?p = "toLowerCase scenarioPrompt"
  have f: "filterFoods ?p foods = [v]"
    using assms(1,2,3,4,7,8) by (rule scenario_filter)
  then have c: "candidates ?p foods = [v]"
    by (simp add: candidates_def capFoods_def scenario_prompt)
  from assms(9) obtain resp where resp: "tryBody True scenarioPrompt (Some foods) reply = Inr resp"
    by (cases "tryBody True scenarioPrompt (Some foods) reply") auto
  then have g: "getRecommendations True scenarioPrompt (Some foods) reply refetched = resp"
    by (simp add: getRecommendations_def)
  from tryBody_respond [OF scenario_prompt(9) _ assms(9)] f resp c
  have r: "respond ?p [v] (answerList reply) = Inr resp"
    by simp
  from respond_nonempty [OF r _ scenario_prompt(8)] have "success resp \<and> items resp \<noteq> []"
    by simp
  moreover have "\<forall>r\<in>set (items resp). item r = v"
    using respond_items [OF r] by auto
  ultimately show ?thesis
    unfolding g by blast
qed


theorem scenario_vegan_pune_witness:
  "\<not> isl (tryBody True scenarioPrompt (Some [veganItem, meatItem]) Unparseable)
   \<and> map (ident \<circ> item) (items (getRecommendations True scenarioPrompt
        (Some [veganItem, meatItem]) Unparseable None)) = [1]
   \<and> \<not> isl (tryBody True scenarioPrompt (Some [meatItem, veganItem])
             (Parsed (JArr [titled ''Chicken Roll'', titled ''Tofu Bowl''])))
   \<and> list_all (\<lambda>r. item r = veganItem)
        (items (getRecommendations True scenarioPrompt (Some [meatItem, veganItem])
           (Parsed (JArr [titled ''Chicken Roll'', titled ''Tofu Bowl''])) None))
   \<and> items (getRecommendations True scenarioPrompt (Some [meatItem, veganItem])
        (Parsed (JArr [titled ''Chicken Roll'', titled ''Tofu Bowl''])) None) \<noteq> []"
proof -
  have v: "city veganItem = Some ''Pune''" "price veganItem = Some 250"
    "hasFlag vegan veganItem" "cuisineFilter ''vegan'' veganItem"
    by code_simp+
  have n: "city meatItem = Some ''Pune''" "price meatItem = Some 200"
    "\<not> hasFlag vegan meatItem"
    by code_simp+
  have a: "\<not> isl (tryBody True scenarioPrompt (Some [veganItem, meatItem]) Unparseable)"
    by code_simp
  have b: "\<not> isl (tryBody True scenarioPrompt (Some [meatItem, veganItem])
             (Parsed (JArr [titled ''Chicken Roll'', titled ''Tofu Bowl''])))"
    by code_simp
  have c: "ident veganItem = 1"
    by code_simp
  from scenario_vegan_pune [OF v n _ a, of None]
  have "map (ident \<circ> item) (items (getRecommendations True scenarioPrompt
        (Some [veganItem, meatItem]) Unparseable None))
      = replicate (length (items (getRecommendations True scenarioPrompt
        (Some [veganItem, meatItem]) Unparseable None))) 1"
    by (simp add: map_replicate_const [symmetric] c cong: map_cong)
  moreover have "length (items (getRecommendations True scenarioPrompt
        (Some [veganItem, meatItem]) Unparseable None)) = 1"
    by code_simp
  ultimately have "map (ident \<circ> item) (items (getRecommendations True scenarioPrompt
        (Some [veganItem, meatItem]) Unparseable None)) = [1]"
    by simp
  moreover from scenario_vegan_pune [OF v n _ b, of None]
  have "list_all (\<lambda>r. item r = veganItem)
        (items (getRecommendations True scenarioPrompt (Some [meatItem, veganItem])
           (Parsed (JArr [titled ''Chicken Roll'', titled ''Tofu Bowl''])) None))
      \<and> items (getRecommendations True scenarioPrompt (Some [meatItem, veganItem])
        (Parsed (JArr [titled ''Chicken Roll'', titled ''Tofu Bowl''])) None) \<noteq> []"
    by (simp add: list_all_iff)
  ultimately show ?thesis using a b by blast
qed

text \<open>
  Two ways the scenario fails as the specification words it. A vegan item listed under
  Indian cuisine is removed by the cuisine test for "vegan": nothing is returned. And an
  answer whose array holds \<^verbatim>\<open>null\<close> raises a TypeError, which the catch block answers
  with both items of the catalog.
\<close>

theorem scenario_vegan_pune_counterexample:
  "city veganIndian = Some ''Pune'' \<and> price veganIndian = Some 250 \<and> hasFlag vegan veganIndian
   \<and> city meatItem = Some ''Pune'' \<and> price meatItem = Some 200 \<and> \<not> hasFlag vegan meatItem
   \<and> items (getRecommendations True scenarioPrompt (Some [veganIndian, meatItem])
        (Parsed (JArr [titled ''Tofu Bowl''])) (Some [veganIndian, meatItem])) = []
   \<and> map (ident \<circ> item) (items (getRecommendations True scenarioPrompt
        (Some [veganItem, meatItem]) (Parsed (JArr [JNull])) (Some [veganItem, meatItem])))
      = [1, 2]"
  by code_simp

subsection \<open>Duplicates\<close>

text \<open>
  C10. The reconciler does not deduplicate. On a catalog of two dishes, an answer whose three
  entries name the first dish exactly, in another case, and inside a longer title
  reconciles each entry to that dish, and the response lists it three times.
\<close>

theorem reconciler_keeps_duplicates:
  "map_sum id (map (ident \<circ> item))
     (matchedFoods (candidates (toLowerCase ''something tasty'') [sampleFood 1, sampleFood 2])
        [titled ''Dish 1'', titled ''dish 1'', titled ''The Dish 1 special'']) = Inr [1, 1, 1]
   \<and> map (ident \<circ> item) (items (getRecommendations True ''something tasty''
        (Some [sampleFood 1, sampleFood 2])
        (Parsed (JArr [titled ''Dish 1'', titled ''dish 1'', titled ''The Dish 1 special'']))
        None)) = [1, 1, 1]"
  by code_simp

end
